theory Spec2Isabelle
  imports Main "HOL-Library.AList"
begin

section \<open>JavaScript values used by server.js\<close>

text \<open>
  A text field of a request body or of an event payload is either absent
  (\<open>undefined\<close>, modelled by \<open>None\<close>) or a string. A JavaScript string is
  modelled by \<open>string\<close>, one \<open>char\<close> per code unit below 256.
\<close>

definition truthy :: "string option \<Rightarrow> bool" where
  "truthy v = (case v of None \<Rightarrow> False | Some s \<Rightarrow> s \<noteq> [])"

text \<open>\<open>v || d\<close> for a text value \<open>v\<close> and a string default \<open>d\<close>.\<close>

definition or_default :: "string option \<Rightarrow> string \<Rightarrow> string" where
  "or_default v d = (case v of None \<Rightarrow> d | Some s \<Rightarrow> if s = [] then d else s)"

text \<open>How a template literal renders a text value: \<open>undefined\<close> prints as a word.\<close>

definition render :: "string option \<Rightarrow> string" where
  "render v = (case v of None \<Rightarrow> ''undefined'' | Some s \<Rightarrow> s)"

definition digit :: "nat \<Rightarrow> char" where
  "digit d = ''0123456789'' ! d"

text \<open>How a template literal renders a non-negative integer (\<open>Date.now()\<close>, a length).\<close>

fun show_nat :: "nat \<Rightarrow> string" where
  "show_nat n = (if n < 10 then [digit n] else show_nat (n div 10) @ [digit (n mod 10)])"

declare show_nat.simps [simp del]

definition dquote :: char where
  "dquote = CHR 0x22"

definition newline :: char where
  "newline = CHR 0x0A"

definition quoted :: "string \<Rightarrow> string" where
  "quoted s = dquote # s @ [dquote]"


section \<open>extractJavaClassName: the regular expression\<close>

text \<open>
  \<open>code.match(/public\s+class\s+(\w+)/)\<close>. The character classes, on code units
  below 256: \<open>\s\<close> is tab, line feed, vertical tab, form feed, carriage return,
  space and no-break space; \<open>\w\<close> is a letter, a digit or the underscore.
\<close>

definition is_space :: "char \<Rightarrow> bool" where
  "is_space c = (of_char c \<in> {9, 10, 11, 12, 13, 32, 160 :: nat})"

definition is_word :: "char \<Rightarrow> bool" where
  "is_word c = (let n = (of_char c :: nat) in
     (65 \<le> n \<and> n \<le> 90) \<or> (97 \<le> n \<and> n \<le> 122) \<or> (48 \<le> n \<and> n \<le> 57) \<or> n = 95)"

fun strip_prefix :: "string \<Rightarrow> string \<Rightarrow> string option" where
  "strip_prefix [] s = Some s"
| "strip_prefix (p # ps) [] = None"
| "strip_prefix (p # ps) (c # cs) = (if p = c then strip_prefix ps cs else None)"

text \<open>
  One attempt of the expression at the start of \<open>s\<close>. Both \<open>\s+\<close> are greedy;
  giving a white-space character back never helps, since the next thing to match
  (the letter c of class, a word character) is not white space. \<open>(\w+)\<close> is greedy
  and last, so the group is the longest run of word characters. The result is
  the captured group.
\<close>

definition match_here :: "string \<Rightarrow> string option" where
  "match_here s =
     (case strip_prefix ''public'' s of
        None \<Rightarrow> None
      | Some r1 \<Rightarrow>
          if takeWhile is_space r1 = [] then None
          else (case strip_prefix ''class'' (dropWhile is_space r1) of
                  None \<Rightarrow> None
                | Some r2 \<Rightarrow>
                    if takeWhile is_space r2 = [] then None
                    else if takeWhile is_word (dropWhile is_space r2) = [] then None
                    else Some (takeWhile is_word (dropWhile is_space r2))))"

text \<open>\<open>String.prototype.match\<close> without the g flag: the leftmost start that matches.\<close>

fun js_match :: "string \<Rightarrow> string option" where
  "js_match [] = match_here []"
| "js_match (c # cs) =
     (case match_here (c # cs) of Some w \<Rightarrow> Some w | None \<Rightarrow> js_match cs)"

definition extractJavaClassName :: "string \<Rightarrow> string" where
  "extractJavaClassName code = (case js_match code of Some w \<Rightarrow> w | None \<Rightarrow> ''Main'')"

text \<open>
  What the words "the first public class C declaration" mean, stated without the
  matcher: \<open>decl_at pre C code\<close> says that after the prefix \<open>pre\<close> the text reads
  public, white space, class, white space, and then the identifier \<open>C\<close>, which
  stops where the word characters stop.
\<close>

definition decl_at :: "string \<Rightarrow> string \<Rightarrow> string \<Rightarrow> bool" where
  "decl_at pre C code =
     (\<exists>ws1 ws2 rest.
        code = pre @ ''public'' @ ws1 @ ''class'' @ ws2 @ C @ rest \<and>
        ws1 \<noteq> [] \<and> list_all is_space ws1 \<and>
        ws2 \<noteq> [] \<and> list_all is_space ws2 \<and>
        C \<noteq> [] \<and> list_all is_word C \<and>
        (case rest of [] \<Rightarrow> True | c # _ \<Rightarrow> \<not> is_word c))"

definition first_decl :: "string \<Rightarrow> string \<Rightarrow> bool" where
  "first_decl C code =
     (\<exists>pre. decl_at pre C code \<and>
        (\<forall>pre' C'. decl_at pre' C' code \<longrightarrow> length pre \<le> length pre'))"

definition no_decl :: "string \<Rightarrow> bool" where
  "no_decl code = (\<forall>pre C. \<not> decl_at pre C code)"


section \<open>The file system and createTempFile\<close>

text \<open>
  The host: \<open>__dirname\<close>, \<open>Date.now()\<close> and whether \<open>process.platform\<close> is win32.
\<close>

record host =
  dirname :: string
  now :: nat
  win32 :: bool

definition sep :: "host \<Rightarrow> char" where
  "sep h = (if win32 h then CHR 0x5C else CHR ''/'')"

text \<open>
  \<open>path.join\<close> and \<open>path.dirname\<close> on the paths the server builds: \<open>__dirname\<close> is
  an absolute, normalised directory, and the joined names hold no separator.
\<close>

definition path_join :: "host \<Rightarrow> string \<Rightarrow> string \<Rightarrow> string" where
  "path_join h d n = d @ [sep h] @ n"

definition path_dirname :: "host \<Rightarrow> string \<Rightarrow> string" where
  "path_dirname h p = rev (drop 1 (dropWhile (\<lambda>c. c \<noteq> sep h) (rev p)))"

text \<open>
  A file system: the regular files with their contents, the directories, and the
  paths whose removal the operating system refuses.
\<close>

record filesys =
  files :: "string \<rightharpoonup> string"
  dirs :: "string set"
  locked :: "string set"

datatype fs_error = ENOENT | EPERM

definition existsSync :: "filesys \<Rightarrow> string \<Rightarrow> bool" where
  "existsSync fs p = (files fs p \<noteq> None \<or> p \<in> dirs fs)"

definition mkdirSync :: "filesys \<Rightarrow> string \<Rightarrow> filesys" where
  "mkdirSync fs p = fs\<lparr>dirs := insert p (dirs fs)\<rparr>"

definition writeFileSync :: "filesys \<Rightarrow> string \<Rightarrow> string \<Rightarrow> filesys" where
  "writeFileSync fs p content = fs\<lparr>files := (files fs)(p \<mapsto> content)\<rparr>"

text \<open>\<open>fs.unlinkSync\<close> throws when the file is missing or its removal is refused.\<close>

definition unlinkSync :: "filesys \<Rightarrow> string \<Rightarrow> fs_error + filesys" where
  "unlinkSync fs p =
     (if files fs p = None then Inl ENOENT
      else if p \<in> locked fs then Inl EPERM
      else Inr (fs\<lparr>files := (files fs)(p := None)\<rparr>))"

text \<open>
  \<open>extensions[language]\<close> and \<open>commands[language]\<close> read a property of an object
  literal. The result is an own property (a string), or a property inherited
  from \<open>Object.prototype\<close>, or \<open>undefined\<close> when there is neither. An inherited
  property is a function, or the prototype object itself for \<open>__proto__\<close>: it is
  truthy and it is not a string. The model keeps the text a template literal
  renders it to.
\<close>

datatype property = Own string | Inherited string | Missing

definition inherited_names :: "string list" where
  "inherited_names =
     [''constructor'', ''__defineGetter__'', ''__defineSetter__'', ''hasOwnProperty'',
      ''__lookupGetter__'', ''__lookupSetter__'', ''isPrototypeOf'',
      ''propertyIsEnumerable'', ''toString'', ''valueOf'', ''__proto__'',
      ''toLocaleString'']"

definition inherited_text :: "string \<Rightarrow> string" where
  "inherited_text name =
     (if name = ''__proto__'' then ''[object Object]''
      else if name = ''constructor'' then ''function Object() { [native code] }''
      else ''function '' @ name @ ''() { [native code] }'')"

text \<open>\<open>p || d\<close> inside a template literal, for a property \<open>p\<close> and a string \<open>d\<close>.\<close>

definition property_or :: "property \<Rightarrow> string \<Rightarrow> string" where
  "property_or p d =
     (case p of Own s \<Rightarrow> if s = [] then d else s | Inherited t \<Rightarrow> t | Missing \<Rightarrow> d)"

definition extensions :: "string \<Rightarrow> property" where
  "extensions language =
     (if language = ''python'' then Own ''.py''
      else if language = ''javascript'' then Own ''.js''
      else if language = ''java'' then Own ''.java''
      else if language = ''cpp'' then Own ''.cpp''
      else if language \<in> set inherited_names then Inherited (inherited_text language)
      else Missing)"

record tempfile =
  filePath :: string
  fileName :: string
  className :: "string option"

definition createTempFile :: "host \<Rightarrow> filesys \<Rightarrow> string \<Rightarrow> string \<Rightarrow> filesys \<times> tempfile" where
  "createTempFile h fs code language =
     (let tempDir = path_join h (dirname h) ''temp'';
          fs1 = (if \<not> existsSync fs tempDir then mkdirSync fs tempDir else fs);
          fName = ''temp_'' @ show_nat (now h) @ property_or (extensions language) ''.txt'';
          fPath = path_join h tempDir fName
      in if language = ''java'' then
           (let cName = or_default (Some (extractJavaClassName code)) ''Main'';
                javaFileName = cName @ ''.java'';
                javaFilePath = path_join h tempDir javaFileName
            in (writeFileSync fs1 javaFilePath code,
                \<lparr>filePath = javaFilePath, fileName = javaFileName, className = Some cName\<rparr>))
         else
           (writeFileSync fs1 fPath code,
            \<lparr>filePath = fPath, fileName = fName, className = None\<rparr>))"


section \<open>POST /api/run\<close>

text \<open>The command table, built from what \<open>createTempFile\<close> returned.\<close>

definition commands :: "host \<Rightarrow> tempfile \<Rightarrow> string \<Rightarrow> property" where
  "commands h tf language =
     (if language = ''python'' then
        Own (if win32 h then ''python '' @ quoted (filePath tf)
              else ''python3 '' @ quoted (filePath tf))
      else if language = ''javascript'' then
        Own (''node '' @ quoted (filePath tf))
      else if language = ''java'' then
        Own (''cd '' @ quoted (path_dirname h (filePath tf)) @ '' && javac '' @
              quoted (fileName tf) @ '' && java '' @ render (className tf))
      else if language = ''cpp'' then
        Own (if win32 h then
                ''cd '' @ quoted (path_dirname h (filePath tf)) @ '' && g++ '' @
                quoted (fileName tf) @ '' -o output.exe && output.exe''
              else
                ''cd '' @ quoted (path_dirname h (filePath tf)) @ '' && g++ '' @
                quoted (fileName tf) @ '' -o output && ./output'')
      else if language \<in> set inherited_names then Inherited (inherited_text language)
      else Missing)"

text \<open>
  What the child process did: its exit code (\<open>None\<close> when it did not exit by
  itself, as when the 10 second timeout kills it), what it wrote to its two
  streams, and the message of the Error that \<open>child_process.exec\<close> builds when
  the process fails.
\<close>

record proc =
  exit_code :: "int option"
  out :: string
  err :: string
  failure :: string

text \<open>
  The first argument \<open>child_process.exec\<close> hands to its callback: \<open>null\<close> when
  the process exited with code 0, else the Error; the model keeps its message.
\<close>

definition exec_error :: "proc \<Rightarrow> string option" where
  "exec_error p = (if exit_code p = Some 0 then None else Some (failure p))"

record run_result =
  success :: bool
  output_text :: string
  error :: bool

text \<open>
  The replies: status 400 with an error text, status 500 (an exception left the
  handler), or the JSON result of a run.
\<close>

datatype response =
    Bad_request string
  | Server_error
  | Run_result run_result

text \<open>The tail of the exec callback (lines 174 to 186).\<close>

definition run_reply :: "string option \<Rightarrow> string \<Rightarrow> string \<Rightarrow> run_result" where
  "run_reply error_arg stdout stderr =
     (case error_arg of
        Some message \<Rightarrow>
          \<lparr>success = False, output_text = or_default (Some stderr) message, error = True\<rparr>
      | None \<Rightarrow>
          \<lparr>success = True,
           output_text = or_default (Some stdout) ''Program executed successfully (no output)'',
           error = False\<rparr>)"

text \<open>
  The clean-up at the head of the callback: one \<open>try\<close> block, left at the first
  removal that throws; the \<open>catch\<close> logs the message and goes on. The result is
  the file system and whether something was logged.
\<close>

definition cleanup :: "host \<Rightarrow> filesys \<Rightarrow> tempfile \<Rightarrow> string \<Rightarrow> filesys \<times> fs_error option" where
  "cleanup h fs tf language =
     (case unlinkSync fs (filePath tf) of
        Inl e \<Rightarrow> (fs, Some e)
      | Inr fs1 \<Rightarrow>
          (case (if language = ''cpp'' then
                   (let outputPath = path_join h (path_dirname h (filePath tf)) ''output''
                    in if existsSync fs1 outputPath then unlinkSync fs1 outputPath
                       else Inr fs1)
                 else Inr fs1) of
             Inl e \<Rightarrow> (fs1, Some e)
           | Inr fs2 \<Rightarrow>
               (case (if language = ''java'' then
                        (let classPath = path_join h (path_dirname h (filePath tf))
                                           (render (className tf) @ ''.class'')
                         in if existsSync fs2 classPath then unlinkSync fs2 classPath
                            else Inr fs2)
                      else Inr fs2) of
                  Inl e \<Rightarrow> (fs2, Some e)
                | Inr fs3 \<Rightarrow> (fs3, None))))"

text \<open>
  The handler. \<open>exec\<close> stands for the spawned shell: given the command and the
  file system it returns what the process did and the file system it left.
  When \<open>commands[language]\<close> is an inherited property, it is truthy, so the
  "Unsupported language" return is skipped, and it is not a string, so
  \<open>child_process.exec\<close> throws a TypeError before any process is spawned; the
  framework answers that request with status 500.
\<close>

definition api_run ::
  "host \<Rightarrow> (string \<Rightarrow> filesys \<Rightarrow> proc \<times> filesys) \<Rightarrow> filesys \<Rightarrow>
   string option \<Rightarrow> string option \<Rightarrow> filesys \<times> response" where
  "api_run h exec fs code language =
     (if \<not> truthy code \<or> \<not> truthy language then
        (fs, Bad_request ''Code and language are required'')
      else
        (let (fs1, tf) = createTempFile h fs (render code) (render language)
         in case commands h tf (render language) of
              Missing \<Rightarrow> (fs1, Bad_request ''Unsupported language'')
            | Inherited t \<Rightarrow> (fs1, Server_error)
            | Own command \<Rightarrow>
                (let (p, fs2) = exec command fs1;
                     (fs3, logged) = cleanup h fs2 tf (render language)
                 in (fs3, Run_result (run_reply (exec_error p) (out p) (err p))))))"


section \<open>Concrete inputs\<close>

text \<open>
  A host, an empty file system and two child processes, used to run the model:
  \<open>exec_warn\<close> is a program that prints 1, writes 2 to standard error and
  exits with code 0; \<open>exec_fail\<close> is one that prints 7 and exits with code 1.
\<close>

definition h0 :: host where
  "h0 = \<lparr>dirname = ''/app'', now = 1700000000000, win32 = False\<rparr>"

definition fs0 :: filesys where
  "fs0 = \<lparr>files = Map.empty, dirs = {''/app''}, locked = {}\<rparr>"

definition exec_warn :: "string \<Rightarrow> filesys \<Rightarrow> proc \<times> filesys" where
  "exec_warn command fs =
     (\<lparr>exit_code = Some 0, out = ''1'' @ [newline], err = ''2'' @ [newline],
       failure = []\<rparr>, fs)"

definition exec_fail :: "string \<Rightarrow> filesys \<Rightarrow> proc \<times> filesys" where
  "exec_fail command fs =
     (\<lparr>exit_code = Some 1, out = ''7'' @ [newline], err = [],
       failure = ''Command failed: '' @ command @ [newline]\<rparr>, fs)"


section \<open>The in-memory registries\<close>

text \<open>
  The objects stored in the five Maps of server.js that the handlers use
  (\<open>userSessions\<close> is declared and never touched). \<open>createdAt\<close> and \<open>timestamp\<close>
  hold what \<open>new Date()\<close> returned, as a number.
\<close>

record snippet =
  snip_code :: "string option"
  snip_language :: "string option"
  snip_title :: string
  snip_createdAt :: nat

record session =
  ps_code :: "string option"
  ps_language :: "string option"
  ps_users :: "string list"

record member =
  m_id :: string
  m_name :: string

record message =
  msg_id :: string
  msg_text :: "string option"
  msg_username :: string
  msg_timestamp :: nat

record group =
  g_id :: string
  g_name :: string
  g_createdAt :: nat
  g_users :: "member list"
  g_code :: "string option"
  g_language :: "string option"
  g_messages :: "message list"
  g_questions :: "message list"

record call =
  c_caller :: string
  c_recipient :: string
  c_status :: string

text \<open>
  A JavaScript \<open>Map\<close> is an association list in insertion order: \<open>get\<close> is
  \<open>map_of\<close>, \<open>set\<close> is \<open>AList.update\<close> (an existing key keeps its place, a new one
  goes to the end), \<open>delete\<close> is \<open>AList.delete\<close>.

  \<open>studyGroups\<close> and \<open>globalStudyGroups\<close> hold the same group object under one id,
  and the handlers change that object in place. So a group object lives in a
  store, at an address, and the two Maps hold addresses; \<open>next_ref\<close> is the first
  address not yet used. A pair session is held by one Map only and is stored by
  value.

  \<open>rooms\<close> is the socket.io adapter: the sockets that joined each room.
  \<open>sockets\<close> are the connected sockets.
\<close>

record server =
  sharedCodes :: "(string \<times> snippet) list"
  pairSessions :: "(string \<times> session) list"
  studyGroups :: "(string \<times> nat) list"
  globalStudyGroups :: "(string \<times> nat) list"
  videoCalls :: "(string \<times> call) list"
  heap :: "nat \<rightharpoonup> group"
  next_ref :: nat
  rooms :: "string \<Rightarrow> string set"
  sockets :: "string set"

definition init :: server where
  "init = \<lparr>sharedCodes = [], pairSessions = [], studyGroups = [], globalStudyGroups = [],
            videoCalls = [], heap = Map.empty, next_ref = 0, rooms = (\<lambda>_. {}),
            sockets = {}\<rparr>"

definition has :: "(string \<times> 'v) list \<Rightarrow> string \<Rightarrow> bool" where
  "has m k = (map_of m k \<noteq> None)"


section \<open>Events sent to clients\<close>

datatype event =
    Session_state "string option" "string option"
  | User_joined string
  | Code_update "string option" "string option"
  | Group_state "string option" "string option" "message list" "message list"
      "member list" string
  | User_joined_group string string
  | Group_updated string nat
  | Group_code_update "string option" "string option"
  | New_message message
  | New_question message
  | User_left string
  | User_left_group member
  | Group_removed string
  | Call_initiated string
  | Call_answered string
  | Offer "string option" string
  | Answer "string option" string
  | Ice_candidate "string option" string
  | Call_rejected string
  | Call_ended string

text \<open>An emission is the set of sockets the event is delivered to, and the event.\<close>

type_synonym emission = "string set \<times> event"

text \<open>
  The five ways of sending: \<open>socket.emit\<close>, \<open>socket.to(room).emit\<close>,
  \<open>io.to(room).emit\<close>, \<open>io.emit\<close> and \<open>socket.broadcast.emit\<close>.
\<close>

definition socket_emit :: "string \<Rightarrow> string set" where
  "socket_emit sid = {sid}"

definition socket_to :: "server \<Rightarrow> string \<Rightarrow> string \<Rightarrow> string set" where
  "socket_to st sid room = rooms st room - {sid}"

definition io_to :: "server \<Rightarrow> string \<Rightarrow> string set" where
  "io_to st room = rooms st room"

definition io_emit :: "server \<Rightarrow> string set" where
  "io_emit st = sockets st"

definition socket_broadcast :: "server \<Rightarrow> string \<Rightarrow> string set" where
  "socket_broadcast st sid = sockets st - {sid}"

definition socket_join :: "server \<Rightarrow> string \<Rightarrow> string \<Rightarrow> server" where
  "socket_join st sid room = st\<lparr>rooms := (rooms st)(room := insert sid (rooms st room))\<rparr>"


section \<open>Pair programming\<close>

definition default_session :: session where
  "default_session =
     \<lparr>ps_code = Some (''// Welcome to pair programming!'' @ [newline] @
                       ''// Start coding together...''),
      ps_language = Some ''javascript'',
      ps_users = []\<rparr>"

definition join_pair_session :: "string \<Rightarrow> string \<Rightarrow> server \<Rightarrow> server \<times> emission list" where
  "join_pair_session sid sessionId st =
     (let st1 = socket_join st sid sessionId;
          st2 = (if \<not> has (pairSessions st1) sessionId
                 then st1\<lparr>pairSessions := AList.update sessionId default_session (pairSessions st1)\<rparr>
                 else st1)
      in case map_of (pairSessions st2) sessionId of
           None \<Rightarrow> (st2, [])
         | Some session \<Rightarrow>
             (let session1 = session\<lparr>ps_users := ps_users session @ [sid]\<rparr>;
                  st3 = st2\<lparr>pairSessions := AList.update sessionId session1 (pairSessions st2)\<rparr>
              in (st3,
                  [(socket_emit sid, Session_state (ps_code session1) (ps_language session1)),
                   (socket_to st3 sid sessionId, User_joined sid)])))"

definition code_change ::
  "string \<Rightarrow> string \<Rightarrow> string option \<Rightarrow> string option \<Rightarrow> server \<Rightarrow> server \<times> emission list" where
  "code_change sid sessionId code language st =
     (if has (pairSessions st) sessionId then
        (case map_of (pairSessions st) sessionId of
           None \<Rightarrow> (st, [])
         | Some session \<Rightarrow>
             (let session1 = session\<lparr>ps_code := code\<rparr>;
                  session2 = (if truthy language then session1\<lparr>ps_language := language\<rparr>
                              else session1);
                  st1 = st\<lparr>pairSessions := AList.update sessionId session2 (pairSessions st)\<rparr>
              in (st1, [(socket_to st1 sid sessionId, Code_update code language)])))
      else (st, []))"


section \<open>Study groups\<close>

definition welcome_group :: string where
  "welcome_group = ''// Welcome to the study group!'' @ [newline] @
                   ''// Collaborate and learn together...''"

text \<open>POST /api/groups; \<open>uuid\<close> is what \<open>uuidv4()\<close> returned, \<open>date\<close> is \<open>new Date()\<close>.\<close>

definition api_groups_create ::
  "string option \<Rightarrow> string \<Rightarrow> nat \<Rightarrow> server \<Rightarrow> server \<times> string \<times> string" where
  "api_groups_create name uuid date st =
     (let groupId = take 8 uuid;
          newGroup = \<lparr>g_id = groupId,
                      g_name = or_default name (''Study Group '' @ groupId),
                      g_createdAt = date,
                      g_users = [],
                      g_code = Some welcome_group,
                      g_language = Some ''javascript'',
                      g_messages = [],
                      g_questions = []\<rparr>;
          r = next_ref st
      in (st\<lparr>heap := (heap st)(r \<mapsto> newGroup),
             next_ref := Suc r,
             globalStudyGroups := AList.update groupId r (globalStudyGroups st),
             studyGroups := AList.update groupId r (studyGroups st)\<rparr>,
          groupId, g_name newGroup))"

text \<open>GET /api/groups: id, name, userCount and createdAt of every entry.\<close>

definition api_groups :: "server \<Rightarrow> (string \<times> string \<times> nat \<times> nat) list" where
  "api_groups st =
     concat (map (\<lambda>(gid, r). case heap st r of
                                 None \<Rightarrow> []
                               | Some g \<Rightarrow> [(gid, g_name g, length (g_users g), g_createdAt g)])
                 (globalStudyGroups st))"

definition join_study_group ::
  "string \<Rightarrow> string \<Rightarrow> nat \<Rightarrow> server \<Rightarrow> server \<times> emission list" where
  "join_study_group sid groupId date st =
     (let st1 = socket_join st sid groupId;
          (st2, r) =
            (case map_of (globalStudyGroups st1) groupId of
               Some r \<Rightarrow>
                 (if \<not> has (studyGroups st1) groupId
                  then st1\<lparr>studyGroups := AList.update groupId r (studyGroups st1)\<rparr>
                  else st1, r)
             | None \<Rightarrow>
                 (let r = next_ref st1;
                      g = \<lparr>g_id = groupId,
                           g_name = ''Study Group '' @ groupId,
                           g_createdAt = date,
                           g_users = [],
                           g_code = Some welcome_group,
                           g_language = Some ''javascript'',
                           g_messages = [],
                           g_questions = []\<rparr>
                  in (st1\<lparr>heap := (heap st1)(r \<mapsto> g),
                          next_ref := Suc r,
                          globalStudyGroups := AList.update groupId r (globalStudyGroups st1),
                          studyGroups := AList.update groupId r (studyGroups st1)\<rparr>, r)))
      in case heap st2 r of
           None \<Rightarrow> (st2, [])
         | Some g \<Rightarrow>
             (let g1 = g\<lparr>g_users := g_users g @
                          [\<lparr>m_id = sid, m_name = ''User'' @ show_nat (length (g_users g) + 1)\<rparr>]\<rparr>;
                  st3 = st2\<lparr>heap := (heap st2)(r \<mapsto> g1)\<rparr>
              in (st3,
                  [(socket_emit sid,
                    Group_state (g_code g1) (g_language g1) (g_messages g1) (g_questions g1)
                      (g_users g1) (g_name g1)),
                   (socket_to st3 sid groupId,
                    User_joined_group sid (''User'' @ show_nat (length (g_users g1)))),
                   (io_emit st3, Group_updated groupId (length (g_users g1)))])))"

definition group_code_change ::
  "string \<Rightarrow> string \<Rightarrow> string option \<Rightarrow> string option \<Rightarrow> server \<Rightarrow> server \<times> emission list" where
  "group_code_change sid groupId code language st =
     (if has (studyGroups st) groupId then
        (case map_of (studyGroups st) groupId of
           None \<Rightarrow> (st, [])
         | Some r \<Rightarrow>
             (case heap st r of
                None \<Rightarrow> (st, [])
              | Some g \<Rightarrow>
                  (let g1 = g\<lparr>g_code := code\<rparr>;
                       g2 = (if truthy language then g1\<lparr>g_language := language\<rparr> else g1);
                       st1 = st\<lparr>heap := (heap st)(r \<mapsto> g2)\<rparr>
                   in (st1, [(socket_to st1 sid groupId, Group_code_update code language)]))))
      else (st, []))"

definition send_message ::
  "string \<Rightarrow> string \<Rightarrow> string option \<Rightarrow> string option \<Rightarrow> string \<Rightarrow> nat \<Rightarrow> server \<Rightarrow>
   server \<times> emission list" where
  "send_message sid groupId text username uuid date st =
     (if has (studyGroups st) groupId then
        (case map_of (studyGroups st) groupId of
           None \<Rightarrow> (st, [])
         | Some r \<Rightarrow>
             (case heap st r of
                None \<Rightarrow> (st, [])
              | Some g \<Rightarrow>
                  (let msgData = \<lparr>msg_id = uuid, msg_text = text,
                                  msg_username = or_default username ''Anonymous'',
                                  msg_timestamp = date\<rparr>;
                       st1 = st\<lparr>heap := (heap st)(r \<mapsto> g\<lparr>g_messages := g_messages g @ [msgData]\<rparr>)\<rparr>
                   in (st1, [(io_to st1 groupId, New_message msgData)]))))
      else (st, []))"

definition add_question ::
  "string \<Rightarrow> string \<Rightarrow> string option \<Rightarrow> string option \<Rightarrow> string \<Rightarrow> nat \<Rightarrow> server \<Rightarrow>
   server \<times> emission list" where
  "add_question sid groupId text username uuid date st =
     (if has (studyGroups st) groupId then
        (case map_of (studyGroups st) groupId of
           None \<Rightarrow> (st, [])
         | Some r \<Rightarrow>
             (case heap st r of
                None \<Rightarrow> (st, [])
              | Some g \<Rightarrow>
                  (let questionData = \<lparr>msg_id = uuid, msg_text = text,
                                       msg_username = or_default username ''Anonymous'',
                                       msg_timestamp = date\<rparr>;
                       st1 = st\<lparr>heap := (heap st)(r \<mapsto> g\<lparr>g_questions := g_questions g @ [questionData]\<rparr>)\<rparr>
                   in (st1, [(io_to st1 groupId, New_question questionData)]))))
      else (st, []))"


section \<open>Disconnect\<close>

text \<open>
  \<open>pairSessions.forEach\<close>: \<open>indexOf\<close> finds the first entry equal to the socket
  id and \<open>splice(userIndex, 1)\<close> removes that one entry, which is \<open>remove1\<close>.
  The callback changes session objects only, so the Map keeps its keys.
\<close>

fun leave_sessions ::
  "server \<Rightarrow> string \<Rightarrow> (string \<times> session) list \<Rightarrow> (string \<times> session) list \<times> emission list" where
  "leave_sessions st sid [] = ([], [])"
| "leave_sessions st sid ((sessionId, session) # rest) =
     (let (rest1, out) = leave_sessions st sid rest
      in if sid \<in> set (ps_users session)
         then ((sessionId, session\<lparr>ps_users := remove1 sid (ps_users session)\<rparr>) # rest1,
               (socket_to st sid sessionId, User_left sid) # out)
         else ((sessionId, session) # rest1, out))"

text \<open>\<open>splice(userIndex, 1)\<close> at the index \<open>findIndex\<close> returned.\<close>

fun remove_first :: "('a \<Rightarrow> bool) \<Rightarrow> 'a list \<Rightarrow> 'a list" where
  "remove_first P [] = []"
| "remove_first P (x # xs) = (if P x then xs else x # remove_first P xs)"

text \<open>The body of the \<open>studyGroups.forEach\<close> callback, for the entry \<open>(groupId, r)\<close>.\<close>

definition leave_group :: "string \<Rightarrow> string \<Rightarrow> nat \<Rightarrow> server \<Rightarrow> server \<times> emission list" where
  "leave_group sid groupId r st =
     (case heap st r of
        None \<Rightarrow> (st, [])
      | Some g \<Rightarrow>
          (case find (\<lambda>u. m_id u = sid) (g_users g) of
             None \<Rightarrow> (st, [])
           | Some user \<Rightarrow>
               (let g1 = g\<lparr>g_users := remove_first (\<lambda>u. m_id u = sid) (g_users g)\<rparr>;
                    st1 = st\<lparr>heap := (heap st)(r \<mapsto> g1)\<rparr>;
                    out = [(socket_to st1 sid groupId, User_left_group user),
                           (io_emit st1, Group_updated groupId (length (g_users g1)))]
                in if length (g_users g1) = 0
                   then (st1\<lparr>globalStudyGroups := AList.delete groupId (globalStudyGroups st1),
                             studyGroups := AList.delete groupId (studyGroups st1)\<rparr>,
                         out @ [(io_emit st1, Group_removed groupId)])
                   else (st1, out))))"

text \<open>
  \<open>studyGroups.forEach\<close> visits the entries in insertion order. The callback
  deletes no key but the one it is visiting, so the entries to visit are those
  the Map held when the loop began.
\<close>

fun leave_groups :: "string \<Rightarrow> (string \<times> nat) list \<Rightarrow> server \<Rightarrow> server \<times> emission list" where
  "leave_groups sid [] st = (st, [])"
| "leave_groups sid ((groupId, r) # rest) st =
     (let (st1, out1) = leave_group sid groupId r st;
          (st2, out2) = leave_groups sid rest st1
      in (st2, out1 @ out2))"

text \<open>
  socket.io takes a closing socket out of every room before it fires
  \<open>disconnect\<close>; then the handler runs its two loops.
\<close>

definition disconnect :: "string \<Rightarrow> server \<Rightarrow> server \<times> emission list" where
  "disconnect sid st =
     (let st0 = st\<lparr>rooms := (\<lambda>room. rooms st room - {sid}), sockets := sockets st - {sid}\<rparr>;
          (sessions1, out1) = leave_sessions st0 sid (pairSessions st0);
          st1 = st0\<lparr>pairSessions := sessions1\<rparr>;
          (st2, out2) = leave_groups sid (studyGroups st1) st1
      in (st2, out1 @ out2))"


section \<open>Video call signalling\<close>

definition initiate_call :: "string \<Rightarrow> string \<Rightarrow> server \<Rightarrow> server \<times> emission list" where
  "initiate_call sid recipientId st =
     (let callId = sid @ ''-'' @ recipientId;
          st1 = st\<lparr>videoCalls := AList.update callId
                   \<lparr>c_caller = sid, c_recipient = recipientId, c_status = ''pending''\<rparr>
                   (videoCalls st)\<rparr>
      in (st1, [(io_to st1 recipientId, Call_initiated sid)]))"

text \<open>\<open>id.includes(caller)\<close>: the caller's id occurs somewhere in the key.\<close>

fun js_includes :: "string \<Rightarrow> string \<Rightarrow> bool" where
  "js_includes [] p = (p = [])"
| "js_includes (c # cs) p = (strip_prefix p (c # cs) \<noteq> None \<or> js_includes cs p)"

definition end_call :: "string \<Rightarrow> server \<Rightarrow> server \<times> emission list" where
  "end_call sid st =
     (let out = [(socket_broadcast st sid, Call_ended sid)]
      in case find (\<lambda>k. js_includes k sid) (map fst (videoCalls st)) of
           None \<Rightarrow> (st, out)
         | Some callId \<Rightarrow>
             (if callId \<noteq> [] then (st\<lparr>videoCalls := AList.delete callId (videoCalls st)\<rparr>, out)
              else (st, out)))"


section \<open>Shared snippets\<close>

text \<open>POST /api/share: the new state, and the \<open>codeId\<close> and \<open>shareUrl\<close> of the reply.\<close>

definition api_share ::
  "string option \<Rightarrow> string option \<Rightarrow> string option \<Rightarrow> string \<Rightarrow> nat \<Rightarrow> server \<Rightarrow>
   server \<times> string \<times> string" where
  "api_share code language title uuid date st =
     (let codeId = uuid
      in (st\<lparr>sharedCodes := AList.update codeId
               \<lparr>snip_code = code, snip_language = language,
                snip_title = or_default title ''Untitled'', snip_createdAt = date\<rparr>
               (sharedCodes st)\<rparr>,
          codeId, ''/share/'' @ codeId))"

datatype share_reply =
    Found snippet
  | Not_found string

text \<open>GET /api/share/:codeId: the snippet, or status 404 with an error body.\<close>

definition api_share_get :: "server \<Rightarrow> string \<Rightarrow> share_reply" where
  "api_share_get st codeId =
     (case map_of (sharedCodes st) codeId of
        Some sharedCode \<Rightarrow> Found sharedCode
      | None \<Rightarrow> Not_found ''Shared code not found'')"


section \<open>The server as a state machine\<close>

text \<open>
  What reaches the server: a new connection, an event from the socket named
  first, or a POST request. Values the handler takes from outside (a uuid, the
  date) are part of the input.
\<close>

datatype input =
    Connect string
  | Join_pair_session string string
  | Code_change string string "string option" "string option"
  | Join_study_group string string nat
  | Group_code_change string string "string option" "string option"
  | Send_message string string "string option" "string option" string nat
  | Add_question string string "string option" "string option" string nat
  | Disconnect string
  | Initiate_call string string
  | Call_answered_by string string
  | Offer_from string "string option"
  | Answer_from string "string option"
  | Ice_candidate_from string "string option"
  | Call_rejected_by string string
  | End_call string
  | Post_groups "string option" string nat
  | Post_share "string option" "string option" "string option" string nat

text \<open>A socket is in the room named by its own id from the moment it connects.\<close>

definition connect :: "string \<Rightarrow> server \<Rightarrow> server" where
  "connect sid st = socket_join (st\<lparr>sockets := insert sid (sockets st)\<rparr>) sid sid"

fun step :: "server \<Rightarrow> input \<Rightarrow> server \<times> emission list" where
  "step st (Connect sid) = (connect sid st, [])"
| "step st (Join_pair_session sid sessionId) = join_pair_session sid sessionId st"
| "step st (Code_change sid sessionId code language) = code_change sid sessionId code language st"
| "step st (Join_study_group sid groupId date) = join_study_group sid groupId date st"
| "step st (Group_code_change sid groupId code language) =
     group_code_change sid groupId code language st"
| "step st (Send_message sid groupId text username uuid date) =
     send_message sid groupId text username uuid date st"
| "step st (Add_question sid groupId text username uuid date) =
     add_question sid groupId text username uuid date st"
| "step st (Disconnect sid) = disconnect sid st"
| "step st (Initiate_call sid recipientId) = initiate_call sid recipientId st"
| "step st (Call_answered_by sid callerId) = (st, [(io_to st callerId, Call_answered sid)])"
| "step st (Offer_from sid offer) = (st, [(socket_broadcast st sid, Offer offer sid)])"
| "step st (Answer_from sid answer) = (st, [(socket_broadcast st sid, Answer answer sid)])"
| "step st (Ice_candidate_from sid candidate) =
     (st, [(socket_broadcast st sid, Ice_candidate candidate sid)])"
| "step st (Call_rejected_by sid callerId) =
     (st, [(io_to st callerId, Call_rejected ''Call was rejected'')])"
| "step st (End_call sid) = end_call sid st"
| "step st (Post_groups name uuid date) = (fst (api_groups_create name uuid date st), [])"
| "step st (Post_share code language title uuid date) =
     (fst (api_share code language title uuid date st), [])"

fun run_inputs :: "server \<Rightarrow> input list \<Rightarrow> server" where
  "run_inputs st [] = st"
| "run_inputs st (e # es) = run_inputs (fst (step st e)) es"

inductive reachable :: "server \<Rightarrow> bool" where
  reachable_init: "reachable init"
| reachable_step: "reachable st \<Longrightarrow> reachable (fst (step st e))"

text \<open>
  Two predicates on inputs, used to state what a later input must not be:
  an edit of the pair session \<open>k\<close>, and a share whose uuid is \<open>u\<close>.
\<close>

fun edits_session :: "string \<Rightarrow> input \<Rightarrow> bool" where
  "edits_session k (Code_change sid sessionId code language) = (sessionId = k)"
| "edits_session k e = False"

fun shares_id :: "string \<Rightarrow> input \<Rightarrow> bool" where
  "shares_id u (Post_share code language title uuid date) = (uuid = u)"
| "shares_id u e = False"

text \<open>The document (code and language) of the pair session \<open>k\<close>, if there is one.\<close>

definition document :: "server \<Rightarrow> string \<Rightarrow> (string option \<times> string option) option" where
  "document st k = map_option (\<lambda>s. (ps_code s, ps_language s)) (map_of (pairSessions st) k)"

text \<open>
  The shape of the two study-group Maps that every handler keeps: they hold the
  same entries, no id twice and no object twice, and every entry points to an
  object that was allocated.
\<close>

definition registry_inv :: "server \<Rightarrow> bool" where
  "registry_inv st =
     (studyGroups st = globalStudyGroups st \<and>
      distinct (map fst (studyGroups st)) \<and>
      distinct (map snd (studyGroups st)) \<and>
      list_all (\<lambda>(gid, r). r < next_ref st \<and> heap st r \<noteq> None) (studyGroups st))"


section \<open>The class-name scan finds the first declaration\<close>

lemma strip_prefix_iff: "strip_prefix p s = Some r \<longleftrightarrow> s = p @ r"
  by (induction p s rule: strip_prefix.induct) auto

lemma word_not_space: "is_word c \<Longrightarrow> \<not> is_space c"
  by (auto simp: is_word_def is_space_def)

lemma takeWhile_space_word: "C \<noteq> [] \<Longrightarrow> list_all is_word C \<Longrightarrow> takeWhile is_space (C @ r) = []"
  by (cases C) (auto simp: word_not_space)

lemma dropWhile_space_word: "C \<noteq> [] \<Longrightarrow> list_all is_word C \<Longrightarrow> dropWhile is_space (C @ r) = C @ r"
  by (cases C) (auto simp: word_not_space)

lemma takeWhile_word_rest:
  "(case rest of [] \<Rightarrow> True | c # _ \<Rightarrow> \<not> is_word c) \<Longrightarrow> takeWhile is_word rest = []"
  by (cases rest) auto

lemma match_here_decl: "match_here s = Some C \<Longrightarrow> decl_at [] C s"
proof -
  assume m: "match_here s = Some C"
  from m obtain r1 where r1: "strip_prefix ''public'' s = Some r1"
    by (auto simp: match_here_def split: option.splits)
  from m r1 have w1: "takeWhile is_space r1 \<noteq> []"
    by (auto simp: match_here_def split: option.splits if_splits)
  from m r1 w1 obtain r2 where r2: "strip_prefix ''class'' (dropWhile is_space r1) = Some r2"
    by (auto simp: match_here_def split: option.splits if_splits)
  from m r1 w1 r2 have w2: "takeWhile is_space r2 \<noteq> []"
    by (auto simp: match_here_def split: option.splits if_splits)
  from m r1 w1 r2 w2 have c: "C = takeWhile is_word (dropWhile is_space r2)" "C \<noteq> []"
    by (auto simp: match_here_def split: option.splits if_splits)
  let ?rest = "dropWhile is_word (dropWhile is_space r2)"
  have s: "s = ''public'' @ r1" using r1 by (simp only: strip_prefix_iff)
  have d1: "dropWhile is_space r1 = ''class'' @ r2" using r2 by (simp only: strip_prefix_iff)
  have e1: "r1 = takeWhile is_space r1 @ ''class'' @ r2"
    using d1 takeWhile_dropWhile_id [of is_space r1] by simp
  have e2: "r2 = takeWhile is_space r2 @ C @ ?rest"
    using c by simp
  have code: "s = [] @ ''public'' @ takeWhile is_space r1 @ ''class'' @ takeWhile is_space r2 @ C @ ?rest"
    using s e1 e2 by (metis append_Nil)
  have a1: "list_all is_space (takeWhile is_space r1)" "list_all is_space (takeWhile is_space r2)"
    "list_all is_word C"
    using c by (auto simp: list_all_iff dest: set_takeWhileD)
  have a2: "(case ?rest of [] \<Rightarrow> True | c # _ \<Rightarrow> \<not> is_word c)"
    by (auto split: list.splits simp: dropWhile_eq_Cons_conv)
  show "decl_at [] C s"
    unfolding decl_at_def using code w1 w2 c(2) a1 a2 by blast
qed

lemma decl_match_here: "decl_at [] C s \<Longrightarrow> match_here s = Some C"
proof -
  assume "decl_at [] C s"
  then obtain ws1 ws2 rest where
    s: "s = ''public'' @ ws1 @ ''class'' @ ws2 @ C @ rest" and
    w1: "ws1 \<noteq> []" "list_all is_space ws1" and
    w2: "ws2 \<noteq> []" "list_all is_space ws2" and
    c: "C \<noteq> []" "list_all is_word C" and
    r: "(case rest of [] \<Rightarrow> True | c # _ \<Rightarrow> \<not> is_word c)"
    unfolding decl_at_def by auto
  have p1: "strip_prefix ''public'' s = Some (ws1 @ ''class'' @ ws2 @ C @ rest)"
    unfolding strip_prefix_iff using s by simp
  have nc: "\<not> is_space CHR ''c''" by (simp add: is_space_def)
  have t1: "takeWhile is_space (ws1 @ ''class'' @ ws2 @ C @ rest) = ws1"
    using w1(2) nc by (simp add: list_all_iff)
  have d1: "dropWhile is_space (ws1 @ ''class'' @ ws2 @ C @ rest) = ''class'' @ ws2 @ C @ rest"
    using w1(2) nc by (simp add: list_all_iff)
  have p2: "strip_prefix ''class'' (''class'' @ ws2 @ C @ rest) = Some (ws2 @ C @ rest)"
    unfolding strip_prefix_iff by simp
  have t2: "takeWhile is_space (ws2 @ C @ rest) = ws2"
    using w2(2) takeWhile_space_word [OF c] by (simp add: list_all_iff)
  have d2: "dropWhile is_space (ws2 @ C @ rest) = C @ rest"
    using w2(2) dropWhile_space_word [OF c] by (simp add: list_all_iff)
  have t3: "takeWhile is_word (C @ rest) = C"
    using c(2) takeWhile_word_rest [OF r] by (simp add: list_all_iff)
  show ?thesis
    unfolding match_here_def using w1(1) w2(1) c(1) by (simp only: p1 t1 d1 p2 t2 d2 t3 option.case if_False)
qed

lemma match_here_iff: "match_here s = Some C \<longleftrightarrow> decl_at [] C s"
  using match_here_decl decl_match_here by blast

lemma decl_at_match: "decl_at pre C code \<longleftrightarrow> (\<exists>suf. code = pre @ suf \<and> match_here suf = Some C)"
  unfolding match_here_iff decl_at_def by auto

lemma js_match_None: "js_match code = None \<Longrightarrow> code = pre @ suf \<Longrightarrow> match_here suf = None"
proof (induction code arbitrary: pre)
  case Nil
  then show ?case by simp
next
  case (Cons c cs)
  then show ?case
    by (cases pre) (auto split: option.splits)
qed

lemma js_match_Some:
  "js_match code = Some C \<Longrightarrow>
   \<exists>pre suf. code = pre @ suf \<and> match_here suf = Some C \<and>
     (\<forall>pre' suf'. code = pre' @ suf' \<and> length pre' < length pre \<longrightarrow> match_here suf' = None)"
proof (induction code)
  case Nil
  then show ?case by (simp add: match_here_def)
next
  case (Cons c cs)
  show ?case
  proof (cases "match_here (c # cs)")
    case (Some w)
    with Cons.prems have "w = C" by simp
    with Some have "c # cs = [] @ (c # cs) \<and> match_here (c # cs) = Some C \<and>
      (\<forall>pre' suf'. c # cs = pre' @ suf' \<and> length pre' < length ([]::string) \<longrightarrow> match_here suf' = None)"
      by simp
    then show ?thesis by blast
  next
    case None
    with Cons.prems have "js_match cs = Some C" by simp
    from Cons.IH [OF this] obtain pre suf where
      ps: "cs = pre @ suf" "match_here suf = Some C"
      "\<forall>pre' suf'. cs = pre' @ suf' \<and> length pre' < length pre \<longrightarrow> match_here suf' = None"
      by blast
    have "\<forall>pre' suf'. c # cs = pre' @ suf' \<and> length pre' < length (c # pre) \<longrightarrow> match_here suf' = None"
    proof (intro allI impI)
      fix pre' suf'
      assume a: "c # cs = pre' @ suf' \<and> length pre' < length (c # pre)"
      show "match_here suf' = None"
      proof (cases pre')
        case Nil
        with a None show ?thesis by simp
      next
        case (Cons d ds)
        with a have "cs = ds @ suf'" "length ds < length pre" by auto
        with ps(3) show ?thesis by blast
      qed
    qed
    moreover have "c # cs = (c # pre) @ suf" using ps(1) by simp
    ultimately show ?thesis using ps(2) by blast
  qed
qed

lemma js_match_first_decl: "js_match code = Some C \<Longrightarrow> first_decl C code"
proof -
  assume "js_match code = Some C"
  from js_match_Some [OF this] obtain pre suf where
    ps: "code = pre @ suf" "match_here suf = Some C"
    "\<forall>pre' suf'. code = pre' @ suf' \<and> length pre' < length pre \<longrightarrow> match_here suf' = None"
    by blast
  have d: "decl_at pre C code"
    using ps(1,2) by (auto simp: decl_at_match)
  have "\<forall>pre' C'. decl_at pre' C' code \<longrightarrow> length pre \<le> length pre'"
  proof (intro allI impI)
    fix pre' C'
    assume "decl_at pre' C' code"
    then obtain suf' where s': "code = pre' @ suf'" "match_here suf' = Some C'"
      by (auto simp: decl_at_match)
    show "length pre \<le> length pre'"
    proof (rule ccontr)
      assume "\<not> length pre \<le> length pre'"
      then have "length pre' < length pre" by simp
      with ps(3) s'(1) have "match_here suf' = None" by blast
      with s'(2) show False by simp
    qed
  qed
  with d show ?thesis unfolding first_decl_def by blast
qed

lemma js_match_no_decl: "js_match code = None \<Longrightarrow> no_decl code"
  unfolding no_decl_def
  by (auto simp: decl_at_match dest: js_match_None)

lemma first_decl_unique: "first_decl C code \<Longrightarrow> first_decl D code \<Longrightarrow> C = D"
proof -
  assume "first_decl C code" "first_decl D code"
  then obtain p q where
    p: "decl_at p C code" "\<forall>pre' C'. decl_at pre' C' code \<longrightarrow> length p \<le> length pre'" and
    q: "decl_at q D code" "\<forall>pre' C'. decl_at pre' C' code \<longrightarrow> length q \<le> length pre'"
    unfolding first_decl_def by blast
  from p q have len: "length p = length q" by (meson le_antisym)
  from p(1) obtain s where s: "code = p @ s" "match_here s = Some C"
    unfolding decl_at_match by blast
  from q(1) obtain t where t: "code = q @ t" "match_here t = Some D"
    unfolding decl_at_match by blast
  note st = s t
  from st(1,3) len have "s = t" by (metis append_eq_append_conv)
  with st show "C = D" by simp
qed

lemma first_decl_iff: "first_decl C code \<longleftrightarrow> js_match code = Some C"
proof
  assume f: "first_decl C code"
  show "js_match code = Some C"
  proof (cases "js_match code")
    case None
    from js_match_no_decl [OF this] f show ?thesis
      unfolding no_decl_def first_decl_def by blast
  next
    case (Some D)
    from js_match_first_decl [OF this] f have "C = D" by (rule first_decl_unique [rotated])
    with Some show ?thesis by simp
  qed
qed (rule js_match_first_decl)


section \<open>Properties of the execution service\<close>

lemma path_dirname_join:
  assumes "sep h \<notin> set n"
  shows "path_dirname h (path_join h d n) = d"
proof -
  have "dropWhile (\<lambda>c. c \<noteq> sep h) (rev n @ sep h # rev d) = sep h # rev d"
    using assms by (subst dropWhile_append2) auto
  then show ?thesis
    by (simp add: path_dirname_def path_join_def)
qed

lemma word_not_sep: "is_word c \<Longrightarrow> c \<noteq> sep h"
  by (auto simp: is_word_def sep_def)

lemma extract_cases:
  "(js_match code = Some (extractJavaClassName code) \<and> first_decl (extractJavaClassName code) code) \<or>
   (js_match code = None \<and> no_decl code \<and> extractJavaClassName code = ''Main'')"
  by (cases "js_match code")
     (auto simp: extractJavaClassName_def js_match_no_decl js_match_first_decl)

lemma extract_word: "extractJavaClassName code \<noteq> [] \<and> list_all is_word (extractJavaClassName code)"
proof (cases "js_match code")
  case None
  then show ?thesis by (simp add: extractJavaClassName_def is_word_def)
next
  case (Some C)
  from js_match_first_decl [OF this] have "C \<noteq> [] \<and> list_all is_word C"
    unfolding first_decl_def decl_at_def by blast
  with Some show ?thesis by (simp add: extractJavaClassName_def)
qed

lemma java_name_no_sep: "sep h \<notin> set (extractJavaClassName code @ ''.java'')"
proof -
  have "\<forall>c \<in> set (extractJavaClassName code). c \<noteq> sep h"
    using extract_word [of code] by (auto simp: list_all_iff dest: word_not_sep)
  moreover have "sep h \<notin> set ''.java''"
    by (simp add: sep_def)
  ultimately show ?thesis by auto
qed

text \<open>
  C8. For a Java request the source file written to the temp directory is named
  \<open>C.java\<close>, where \<open>C\<close> is the identifier of the first "public class C"
  declaration in the submitted code, or \<open>Main\<close> when the code holds no such
  declaration; the returned class name is \<open>C\<close>, the file holds the code, and the
  command compiles \<open>C.java\<close> and runs \<open>java C\<close> in the temp directory.
\<close>

theorem java_source_named_after_class:
  assumes "createTempFile h fs code ''java'' = (fs', tf)"
    and "C = extractJavaClassName code"
    and "tempDir = path_join h (dirname h) ''temp''"
  shows "(first_decl C code \<or> no_decl code \<and> C = ''Main'') \<and>
         (\<forall>D. first_decl D code \<longrightarrow> D = C) \<and>
         fileName tf = C @ ''.java'' \<and>
         filePath tf = path_join h tempDir (C @ ''.java'') \<and>
         className tf = Some C \<and>
         files fs' (filePath tf) = Some code \<and>
         commands h tf ''java'' =
           Own (''cd '' @ quoted tempDir @ '' && javac '' @ quoted (C @ ''.java'') @
                 '' && java '' @ C)"
proof -
  have ne: "C \<noteq> []" using extract_word [of code] assms(2) by simp
  have tf: "tf = \<lparr>filePath = path_join h tempDir (C @ ''.java''), fileName = C @ ''.java'',
                  className = Some C\<rparr>"
    using assms ne by (simp add: createTempFile_def Let_def or_default_def)
  have fs': "files fs' (path_join h tempDir (C @ ''.java'')) = Some code"
    using assms ne by (auto simp: createTempFile_def Let_def or_default_def writeFileSync_def)
  have d: "path_dirname h (path_join h tempDir (C @ ''.java'')) = tempDir"
    using path_dirname_join [OF java_name_no_sep [of h code]] assms(2) by simp
  have c1: "first_decl C code \<or> no_decl code \<and> C = ''Main''"
    using extract_cases [of code] assms(2) by auto
  have c2: "\<forall>D. first_decl D code \<longrightarrow> D = C"
    using extract_cases [of code] assms(2)
    by (auto simp: first_decl_iff)
  have cmd: "commands h tf ''java'' =
           Own (''cd '' @ quoted tempDir @ '' && javac '' @ quoted (C @ ''.java'') @
                 '' && java '' @ C)"
    unfolding tf commands_def using d by (simp add: render_def)
  show ?thesis using c1 c2 cmd fs' unfolding tf by simp
qed

lemma extract_Foo: "extractJavaClassName ''public class Foo {}'' = ''Foo''"
  by (simp add: extractJavaClassName_def match_here_def is_word_def is_space_def)

lemma extract_none: "js_match ''int x;'' = None"
  by (simp add: match_here_def)

text \<open>
  C8 at two concrete inputs: a class named Foo gives the file Foo.java and the
  command that compiles it and runs \<open>java Foo\<close>; code with no public class gives
  Main.java.
\<close>

theorem java_source_named_after_class_witness:
  "first_decl ''Foo'' ''public class Foo {}'' \<and>
   fileName (snd (createTempFile h0 fs0 ''public class Foo {}'' ''java'')) = ''Foo.java'' \<and>
   commands h0 (snd (createTempFile h0 fs0 ''public class Foo {}'' ''java'')) ''java'' =
     Own (''cd '' @ quoted ''/app/temp'' @ '' && javac '' @ quoted ''Foo.java'' @ '' && java Foo'') \<and>
   no_decl ''int x;'' \<and>
   fileName (snd (createTempFile h0 fs0 ''int x;'' ''java'')) = ''Main.java''"
proof -
  have a: "first_decl ''Foo'' ''public class Foo {}'' \<and>
   fileName (snd (createTempFile h0 fs0 ''public class Foo {}'' ''java'')) = ''Foo.java'' \<and>
   commands h0 (snd (createTempFile h0 fs0 ''public class Foo {}'' ''java'')) ''java'' =
     Own (''cd '' @ quoted ''/app/temp'' @ '' && javac '' @ quoted ''Foo.java'' @ '' && java Foo'')"
    using java_source_named_after_class [of h0 fs0 "''public class Foo {}''"
      "fst (createTempFile h0 fs0 ''public class Foo {}'' ''java'')"
      "snd (createTempFile h0 fs0 ''public class Foo {}'' ''java'')" "''Foo''" "''/app/temp''"]
    by (simp add: extract_Foo h0_def path_join_def sep_def)
  have m: "extractJavaClassName ''int x;'' = ''Main''"
    by (simp only: extractJavaClassName_def extract_none option.case)
  have n: "\<not> first_decl ''Main'' ''int x;''"
    by (simp only: first_decl_iff extract_none) simp
  have b: "no_decl ''int x;'' \<and>
           fileName (snd (createTempFile h0 fs0 ''int x;'' ''java'')) = ''Main.java''"
    using java_source_named_after_class [of h0 fs0 "''int x;''"
      "fst (createTempFile h0 fs0 ''int x;'' ''java'')"
      "snd (createTempFile h0 fs0 ''int x;'' ''java'')" "''Main''" "''/app/temp''"] n
    by (simp add: m h0_def path_join_def sep_def)
  from a b show ?thesis by simp
qed

lemma show_now: "show_nat 1700000000000 = ''1700000000000''"
  by (simp add: show_nat.simps digit_def)

text \<open>
  C1 as stated fails: a Python program that prints 1, writes 2 to standard
  error and exits with code 0 gets a success result carrying its standard
  output.
\<close>

theorem stderr_with_exit_zero_is_success:
  "err (fst (exec_warn (''python3 '' @ quoted ''/app/temp/temp_1700000000000.py'')
               (fst (createTempFile h0 fs0 ''import sys; print(1); print(2, file=sys.stderr)''
                       ''python'')))) = ''2'' @ [newline] \<and>
   snd (api_run h0 exec_warn fs0 (Some ''import sys; print(1); print(2, file=sys.stderr)'')
          (Some ''python'')) =
     Run_result \<lparr>success = True, output_text = ''1'' @ [newline], error = False\<rparr>"
  by (simp add: api_run_def truthy_def render_def createTempFile_def commands_def exec_warn_def
      cleanup_def run_reply_def exec_error_def or_default_def Let_def split: prod.splits)

text \<open>
  C1, amended. For a request with code and a supported language, the result is a
  failure exactly when the process did not exit with code 0 (a nonzero code, or
  a signal such as the timeout's). The output of a failure is the standard-error
  text when that is non-empty, else the message of the exec error; the standard
  output is never used for a failure. A process that exits with code 0 gives a
  success, whatever it wrote to standard error, with the standard output or the
  placeholder as its output.
\<close>

theorem run_fails_iff_exec_error:
  assumes "code \<noteq> []"
    and "createTempFile h fs code language = (fs1, tf)"
    and "commands h tf language = Own command"
    and "exec command fs1 = (p, fs2)"
  shows "\<exists>r. snd (api_run h exec fs (Some code) (Some language)) = Run_result r \<and>
           success r = (exit_code p = Some 0) \<and>
           error r = (exit_code p \<noteq> Some 0) \<and>
           (exit_code p \<noteq> Some 0 \<longrightarrow>
              output_text r = (if err p \<noteq> [] then err p else failure p)) \<and>
           (exit_code p = Some 0 \<longrightarrow>
              output_text r = (if out p \<noteq> [] then out p
                               else ''Program executed successfully (no output)''))"
proof -
  have l: "language \<noteq> []"
    using assms(3) by (auto simp: commands_def split: if_splits)
  show ?thesis
    using assms l
    by (simp add: api_run_def truthy_def render_def run_reply_def exec_error_def or_default_def
        split: prod.splits)
qed

text \<open>
  The amended C1 at a concrete input: a script that prints 7, writes nothing to
  standard error and exits with code 1 fails with the exec error's message, not
  with what it wrote to standard output.
\<close>

theorem run_fails_iff_exec_error_witness:
  "snd (api_run h0 exec_fail fs0 (Some ''console.log(7); process.exit(1)'') (Some ''javascript'')) =
     Run_result \<lparr>success = False,
       output_text = ''Command failed: node '' @ quoted ''/app/temp/temp_1700000000000.js'' @ [newline],
       error = True\<rparr>"
proof -
  let ?tf = "\<lparr>filePath = ''/app/temp/temp_1700000000000.js'', fileName = ''temp_1700000000000.js'',
             className = None\<rparr>"
  let ?fs1 = "writeFileSync (mkdirSync fs0 ''/app/temp'') ''/app/temp/temp_1700000000000.js'' ''console.log(7); process.exit(1)''"
  let ?cmd = "''node '' @ quoted ''/app/temp/temp_1700000000000.js''"
  have a: "''console.log(7); process.exit(1)'' \<noteq> []" by simp
  have b: "createTempFile h0 fs0 ''console.log(7); process.exit(1)'' ''javascript'' = (?fs1, ?tf)"
    by (simp add: createTempFile_def h0_def fs0_def path_join_def sep_def existsSync_def
        extensions_def property_or_def inherited_names_def or_default_def show_now Let_def)
  have c: "commands h0 ?tf ''javascript'' = Own ?cmd"
    by (simp add: commands_def)
  have d: "exec_fail ?cmd ?fs1 =
      (\<lparr>exit_code = Some 1, out = ''7'' @ [newline], err = [],
        failure = ''Command failed: '' @ ?cmd @ [newline]\<rparr>, ?fs1)"
    by (simp add: exec_fail_def)
  from run_fails_iff_exec_error [where exec = exec_fail, OF a b c d] show ?thesis
    by auto
qed

lemma createTempFile_writes:
  "createTempFile h fs code language = (fs1, tf) \<Longrightarrow> files fs1 (filePath tf) = Some code"
  by (auto simp: createTempFile_def writeFileSync_def Let_def split: if_splits)

text \<open>
  C2 fails on the unsupported-language path. For a request whose language
  names no property of the command table, own or inherited, the handler
  answers "Unsupported language" and returns at once: the source file that
  \<open>createTempFile\<close> wrote before the language was checked is still in the temp
  directory afterwards.
\<close>

theorem unsupported_language_keeps_source_file:
  assumes "code \<noteq> []" and "language \<noteq> []"
    and "createTempFile h fs code language = (fs1, tf)"
    and "commands h tf language = Missing"
  shows "api_run h exec fs (Some code) (Some language) =
           (fs1, Bad_request ''Unsupported language'') \<and>
         files fs1 (filePath tf) = Some code \<and>
         existsSync fs1 (filePath tf)"
  using assms createTempFile_writes [OF assms(3)]
  by (simp add: api_run_def truthy_def render_def existsSync_def)

text \<open>
  C2 at the failing input: a request for the language ruby leaves
  \<open>temp_1700000000000.txt\<close> behind, a file that was not there before.
\<close>

theorem unsupported_language_keeps_source_file_witness:
  "snd (api_run h0 exec_warn fs0 (Some ''puts 1'') (Some ''ruby'')) =
     Bad_request ''Unsupported language'' \<and>
   files fs0 ''/app/temp/temp_1700000000000.txt'' = None \<and>
   files (fst (api_run h0 exec_warn fs0 (Some ''puts 1'') (Some ''ruby'')))
     ''/app/temp/temp_1700000000000.txt'' = Some ''puts 1''"
proof -
  let ?tf = "\<lparr>filePath = ''/app/temp/temp_1700000000000.txt'',
             fileName = ''temp_1700000000000.txt'', className = None\<rparr>"
  let ?fs1 = "writeFileSync (mkdirSync fs0 ''/app/temp'') ''/app/temp/temp_1700000000000.txt'' ''puts 1''"
  have a: "''puts 1'' \<noteq> []" and b: "''ruby'' \<noteq> []" by simp_all
  have c: "createTempFile h0 fs0 ''puts 1'' ''ruby'' = (?fs1, ?tf)"
    by (simp add: createTempFile_def h0_def fs0_def path_join_def sep_def existsSync_def
        extensions_def property_or_def inherited_names_def or_default_def show_now Let_def)
  have d: "commands h0 ?tf ''ruby'' = Missing"
    by (simp add: commands_def inherited_names_def)
  from unsupported_language_keeps_source_file [OF a b c d, of exec_warn] show ?thesis
    by (simp add: fs0_def)
qed

text \<open>
  A language that names a property inherited from \<open>Object.prototype\<close> takes
  another path with the same end: the file is written, under a name that ends
  in the text of the inherited property, \<open>exec\<close> throws, the request is
  answered with status 500, and the file stays.
\<close>

lemma inherited_language_keeps_source_file:
  assumes "code \<noteq> []" and "language \<noteq> []"
    and "createTempFile h fs code language = (fs1, tf)"
    and "commands h tf language = Inherited t"
  shows "api_run h exec fs (Some code) (Some language) = (fs1, Server_error) \<and>
         files fs1 (filePath tf) = Some code"
  using assms createTempFile_writes [OF assms(3)]
  by (simp add: api_run_def truthy_def render_def)

lemma constructor_language_run:
  "snd (api_run h0 exec_warn fs0 (Some ''x'') (Some ''constructor'')) = Server_error \<and>
   files (fst (api_run h0 exec_warn fs0 (Some ''x'') (Some ''constructor'')))
     ''/app/temp/temp_1700000000000function Object() { [native code] }'' = Some ''x''"
  by (simp add: api_run_def truthy_def render_def createTempFile_def commands_def extensions_def
      property_or_def inherited_names_def inherited_text_def show_now h0_def fs0_def
      path_join_def sep_def writeFileSync_def mkdirSync_def existsSync_def Let_def
      split: prod.splits)


section \<open>Properties of the registries\<close>

subsection \<open>Association lists\<close>

lemma map_of_update: "map_of (AList.update k v al) k' = (if k' = k then Some v else map_of al k')"
  by (simp add: update_conv')

lemma map_of_delete: "map_of (AList.delete k al) k' = (if k' = k then None else map_of al k')"
  by (simp add: delete_conv')

subsection \<open>Unknown ids\<close>

text \<open>
  C7. A code-change that names a session id absent from \<open>pairSessions\<close>, and a
  group-code-change, send-message or add-question that names a group id absent
  from \<open>studyGroups\<close>, does nothing: the server state is unchanged (every
  registry and every room) and no event is emitted. The handler has no branch
  that raises.
\<close>

theorem unknown_id_is_noop:
  "(map_of (pairSessions st) k = None \<longrightarrow>
      step st (Code_change sid k code language) = (st, [])) \<and>
   (map_of (studyGroups st) k = None \<longrightarrow>
      step st (Group_code_change sid k code language) = (st, []) \<and>
      step st (Send_message sid k text username uuid date) = (st, []) \<and>
      step st (Add_question sid k text username uuid date) = (st, []))"
  by (simp add: code_change_def group_code_change_def send_message_def add_question_def has_def)

text \<open>C7 on the empty server, where no id is known.\<close>

theorem unknown_id_is_noop_witness:
  "step init (Code_change ''A'' ''nowhere'' (Some ''x = 1'') None) = (init, []) \<and>
   step init (Group_code_change ''A'' ''nowhere'' (Some ''x = 1'') None) = (init, []) \<and>
   step init (Send_message ''A'' ''nowhere'' (Some ''hello'') None ''u1'' 5) = (init, []) \<and>
   step init (Add_question ''A'' ''nowhere'' (Some ''why'') None ''u2'' 6) = (init, [])"
proof -
  have "map_of (pairSessions init) ''nowhere'' = None" "map_of (studyGroups init) ''nowhere'' = None"
    by (simp_all add: init_def)
  with unknown_id_is_noop [of init "''nowhere''"] show ?thesis
    by blast
qed

subsection \<open>Sharing validates nothing\<close>

text \<open>
  C10. The share handler validates nothing and has no failing branch: for every
  code, language and title, absent or not, it stores a snippet with exactly
  those code and language values under the id \<open>uuidv4()\<close> returned, replies
  with that id and the URL \<open>/share/id\<close>, and leaves every other snippet as it
  was.
\<close>

theorem share_never_fails:
  "snd (api_share code language title uuid date st) = (uuid, ''/share/'' @ uuid) \<and>
   map_of (sharedCodes (fst (api_share code language title uuid date st))) uuid =
     Some \<lparr>snip_code = code, snip_language = language,
           snip_title = or_default title ''Untitled'', snip_createdAt = date\<rparr> \<and>
   (\<forall>k. k \<noteq> uuid \<longrightarrow>
      map_of (sharedCodes (fst (api_share code language title uuid date st))) k =
      map_of (sharedCodes st) k)"
  by (simp add: api_share_def map_of_update)

text \<open>C10 for a request with no code, no language and no title.\<close>

theorem share_never_fails_witness:
  "snd (api_share None None None ''id-1'' 7 init) = (''id-1'', ''/share/id-1'') \<and>
   map_of (sharedCodes (fst (api_share None None None ''id-1'' 7 init))) ''id-1'' =
     Some \<lparr>snip_code = None, snip_language = None, snip_title = ''Untitled'', snip_createdAt = 7\<rparr>"
  using share_never_fails [of None None None "''id-1''" 7 init]
  by (simp add: or_default_def)

subsection \<open>What each handler leaves alone\<close>

lemma leave_sessions_map_of:
  "map_of (fst (leave_sessions st sid L)) k =
     map_option (\<lambda>s. if sid \<in> set (ps_users s) then s\<lparr>ps_users := remove1 sid (ps_users s)\<rparr> else s)
       (map_of L k)"
  by (induction L) (auto split: prod.splits)

lemma leave_groups_fst:
  "fst (leave_groups sid ((gid, r) # rest) st) =
   fst (leave_groups sid rest (fst (leave_group sid gid r st)))"
  by (simp split: prod.splits)

lemma disconnect_fst:
  "fst (disconnect sid st) =
   fst (leave_groups sid (studyGroups st)
     (st\<lparr>rooms := (\<lambda>room. rooms st room - {sid}), sockets := sockets st - {sid},
         pairSessions := fst (leave_sessions
           (st\<lparr>rooms := (\<lambda>room. rooms st room - {sid}), sockets := sockets st - {sid}\<rparr>)
           sid (pairSessions st))\<rparr>))"
  by (simp add: disconnect_def Let_def split: prod.splits)

lemma leave_group_frame:
  "sharedCodes (fst (leave_group sid gid r st)) = sharedCodes st \<and>
   pairSessions (fst (leave_group sid gid r st)) = pairSessions st \<and>
   rooms (fst (leave_group sid gid r st)) = rooms st \<and>
   sockets (fst (leave_group sid gid r st)) = sockets st \<and>
   next_ref (fst (leave_group sid gid r st)) = next_ref st"
  by (simp add: leave_group_def Let_def split: option.splits)

lemma leave_groups_frame:
  "sharedCodes (fst (leave_groups sid L st)) = sharedCodes st \<and>
   pairSessions (fst (leave_groups sid L st)) = pairSessions st \<and>
   rooms (fst (leave_groups sid L st)) = rooms st \<and>
   sockets (fst (leave_groups sid L st)) = sockets st \<and>
   next_ref (fst (leave_groups sid L st)) = next_ref st"
proof (induction L arbitrary: st)
  case Nil
  then show ?case by simp
next
  case (Cons a L)
  obtain gid r where a: "a = (gid, r)" by (cases a)
  show ?case
    unfolding a leave_groups_fst
    using Cons.IH [of "fst (leave_group sid gid r st)"] leave_group_frame [of sid gid r st]
    by simp
qed

lemma disconnect_sharedCodes: "sharedCodes (fst (disconnect sid st)) = sharedCodes st"
  by (simp add: disconnect_fst leave_groups_frame)

lemma join_pair_session_sharedCodes:
  "sharedCodes (fst (join_pair_session sid k st)) = sharedCodes st"
  by (simp add: join_pair_session_def socket_join_def Let_def split: option.splits)

lemma code_change_sharedCodes:
  "sharedCodes (fst (code_change sid k c l st)) = sharedCodes st"
  by (simp add: code_change_def Let_def split: option.splits)

lemma join_study_group_sharedCodes:
  "sharedCodes (fst (join_study_group sid k d st)) = sharedCodes st"
  by (simp add: join_study_group_def socket_join_def Let_def split: option.splits prod.splits)

lemma group_code_change_sharedCodes:
  "sharedCodes (fst (group_code_change sid k c l st)) = sharedCodes st"
  by (simp add: group_code_change_def Let_def split: option.splits)

lemma send_message_sharedCodes:
  "sharedCodes (fst (send_message sid k t n u d st)) = sharedCodes st"
  by (simp add: send_message_def Let_def split: option.splits)

lemma add_question_sharedCodes:
  "sharedCodes (fst (add_question sid k t n u d st)) = sharedCodes st"
  by (simp add: add_question_def Let_def split: option.splits)

lemma calls_sharedCodes:
  "sharedCodes (fst (initiate_call sid k st)) = sharedCodes st"
  "sharedCodes (fst (end_call sid st)) = sharedCodes st"
  by (simp_all add: initiate_call_def end_call_def Let_def split: option.splits)

lemma step_sharedCodes:
  "\<not> shares_id u e \<Longrightarrow> map_of (sharedCodes (fst (step st e))) u = map_of (sharedCodes st) u"
  by (cases e)
     (simp_all add: connect_def socket_join_def join_pair_session_sharedCodes
        code_change_sharedCodes join_study_group_sharedCodes group_code_change_sharedCodes
        send_message_sharedCodes add_question_sharedCodes disconnect_sharedCodes
        calls_sharedCodes api_groups_create_def api_share_def map_of_update Let_def)

subsection \<open>Retrieving a shared snippet\<close>

lemma run_inputs_sharedCodes:
  "\<forall>e \<in> set es. \<not> shares_id u e \<Longrightarrow>
   map_of (sharedCodes (run_inputs st es)) u = map_of (sharedCodes st) u"
  by (induction es arbitrary: st) (simp_all add: step_sharedCodes)

text \<open>
  C9. The id a share returns is the uuid it stored the snippet under. Whatever
  inputs the server handles afterwards, as long as no later share is given the
  same uuid (\<open>uuidv4\<close> does not repeat itself), retrieving that id yields the
  code, the language and the title that were stored, the title being
  \<open>Untitled\<close> when the request had none; and an id that no share of the
  process's history returned yields the 404 reply with its error body.
\<close>

theorem shared_snippet_round_trip:
  assumes "\<forall>e \<in> set es. \<not> shares_id u e"
  shows "fst (snd (api_share code language title u date st)) = u \<and>
         api_share_get (run_inputs (fst (api_share code language title u date st)) es) u =
           Found \<lparr>snip_code = code, snip_language = language,
                  snip_title = or_default title ''Untitled'', snip_createdAt = date\<rparr> \<and>
         api_share_get (run_inputs init es) u = Not_found ''Shared code not found''"
  using run_inputs_sharedCodes [OF assms]
  by (simp add: api_share_get_def api_share_def map_of_update init_def)

text \<open>C9 on a history with another share, a join and a disconnect.\<close>

theorem shared_snippet_round_trip_witness:
  "api_share_get
     (run_inputs (fst (api_share (Some ''x = 1'') (Some ''python'') None ''id-1'' 7 init))
        [Connect ''A'', Post_share (Some ''y'') (Some ''java'') (Some ''t'') ''id-2'' 8,
         Join_pair_session ''A'' ''s'', Disconnect ''A''])
     ''id-1'' =
     Found \<lparr>snip_code = Some ''x = 1'', snip_language = Some ''python'',
            snip_title = ''Untitled'', snip_createdAt = 7\<rparr> \<and>
   api_share_get
     (run_inputs init
        [Connect ''A'', Post_share (Some ''y'') (Some ''java'') (Some ''t'') ''id-2'' 8,
         Join_pair_session ''A'' ''s'', Disconnect ''A''])
     ''id-1'' = Not_found ''Shared code not found''"
proof -
  have "\<forall>e \<in> set [Connect ''A'', Post_share (Some ''y'') (Some ''java'') (Some ''t'') ''id-2'' 8,
         Join_pair_session ''A'' ''s'', Disconnect ''A'']. \<not> shares_id ''id-1'' e"
    by simp
  from shared_snippet_round_trip [OF this, of "Some ''x = 1''" "Some ''python''" None 7 init]
  show ?thesis by (simp add: or_default_def)
qed

subsection \<open>Pair sessions\<close>

lemma join_pair_session_map_of:
  "map_of (pairSessions (fst (join_pair_session sid k st))) k' =
     (if k' = k
      then Some ((case map_of (pairSessions st) k of None \<Rightarrow> default_session | Some s \<Rightarrow> s)
                 \<lparr>ps_users := ps_users (case map_of (pairSessions st) k of
                                          None \<Rightarrow> default_session | Some s \<Rightarrow> s) @ [sid]\<rparr>)
      else map_of (pairSessions st) k')"
  by (simp add: join_pair_session_def socket_join_def has_def map_of_update Let_def
      split: option.splits)

lemma join_pair_session_out:
  "snd (join_pair_session sid k st) =
     [({sid}, case document st k of
                None \<Rightarrow> Session_state (ps_code default_session) (ps_language default_session)
              | Some d \<Rightarrow> Session_state (fst d) (snd d)),
      (rooms st k - {sid}, User_joined sid)]"
  by (auto simp: join_pair_session_def socket_join_def has_def map_of_update Let_def
      document_def socket_emit_def socket_to_def split: option.splits)

lemma join_pair_session_document:
  "document (fst (join_pair_session sid k st)) k' =
     (if k' = k \<and> document st k = None
      then Some (ps_code default_session, ps_language default_session)
      else document st k')"
  by (auto simp: document_def join_pair_session_map_of split: option.splits)

lemma code_change_document:
  "document (fst (code_change sid k code language st)) k' =
     (case document st k of
        None \<Rightarrow> document st k'
      | Some d \<Rightarrow> if k' = k then Some (code, if truthy language then language else snd d)
                  else document st k')"
  by (auto simp: document_def code_change_def has_def map_of_update Let_def split: option.splits)

lemma disconnect_document: "document (fst (disconnect sid st)) k = document st k"
  by (simp add: document_def disconnect_fst leave_groups_frame leave_sessions_map_of
      option.map_comp comp_def if_distrib cong: if_cong)

lemma group_handlers_pairSessions:
  "pairSessions (fst (join_study_group sid k d st)) = pairSessions st"
  "pairSessions (fst (group_code_change sid k c l st)) = pairSessions st"
  "pairSessions (fst (send_message sid k t n u d st)) = pairSessions st"
  "pairSessions (fst (add_question sid k t n u d st)) = pairSessions st"
  "pairSessions (fst (initiate_call sid k st)) = pairSessions st"
  "pairSessions (fst (end_call sid st)) = pairSessions st"
  "pairSessions (fst (api_groups_create name u d st)) = pairSessions st"
  "pairSessions (fst (api_share c l t u d st)) = pairSessions st"
  "pairSessions (connect sid st) = pairSessions st"
  by (simp_all add: join_study_group_def group_code_change_def send_message_def
      add_question_def initiate_call_def end_call_def api_groups_create_def api_share_def
      connect_def socket_join_def Let_def split: option.splits prod.splits)

lemma step_document:
  "\<not> edits_session k e \<Longrightarrow> document st k = Some d \<Longrightarrow> document (fst (step st e)) k = Some d"
proof (cases e)
  case (Join_pair_session sid k')
  assume "document st k = Some d"
  then show ?thesis
    by (auto simp: Join_pair_session join_pair_session_document)
next
  case (Code_change sid k' c l)
  assume "\<not> edits_session k e" "document st k = Some d"
  then show ?thesis
    by (auto simp: Code_change code_change_document split: option.splits)
next
  case (Disconnect sid)
  assume "document st k = Some d"
  then show ?thesis
    by (simp add: Disconnect disconnect_document)
qed (simp_all add: document_def group_handlers_pairSessions)

lemma run_inputs_document:
  "\<forall>e \<in> set es. \<not> edits_session k e \<Longrightarrow> document st k = Some d \<Longrightarrow>
   document (run_inputs st es) k = Some d"
  by (induction es arbitrary: st) (simp_all add: step_document)

text \<open>
  C5. Joining a pair session id with no session creates the session with the
  default welcome document and sends that document to the joining socket.
  Joining an id that has a session leaves its document as it is and sends that
  document. And after a code-change on an existing session, a socket that
  joins later, after any inputs that do not edit this session, is sent the
  code that was written (with the written language, or the old one when the
  edit carried none), not the default.
\<close>

theorem pair_session_join_returns_document:
  "(document st k = None \<longrightarrow>
      document (fst (join_pair_session sid k st)) k =
        Some (ps_code default_session, ps_language default_session) \<and>
      snd (join_pair_session sid k st) =
        [({sid}, Session_state (ps_code default_session) (ps_language default_session)),
         (rooms st k - {sid}, User_joined sid)]) \<and>
   (\<forall>c l. document st k = Some (c, l) \<longrightarrow>
      document (fst (join_pair_session sid k st)) k = Some (c, l) \<and>
      snd (join_pair_session sid k st) =
        [({sid}, Session_state c l), (rooms st k - {sid}, User_joined sid)]) \<and>
   (\<forall>c l es. document st k = Some (c, l) \<and> (\<forall>e \<in> set es. \<not> edits_session k e) \<longrightarrow>
      hd (snd (join_pair_session sid k
                 (run_inputs (fst (code_change writer k code language st)) es))) =
        ({sid}, Session_state code (if truthy language then language else l)))"
proof (intro conjI allI impI)
  fix c l es
  assume a: "document st k = Some (c, l) \<and> (\<forall>e \<in> set es. \<not> edits_session k e)"
  then have "document (fst (code_change writer k code language st)) k =
             Some (code, if truthy language then language else l)"
    by (simp add: code_change_document)
  with a have "document (run_inputs (fst (code_change writer k code language st)) es) k =
             Some (code, if truthy language then language else l)"
    by (simp add: run_inputs_document)
  then show "hd (snd (join_pair_session sid k
                 (run_inputs (fst (code_change writer k code language st)) es))) =
        ({sid}, Session_state code (if truthy language then language else l))"
    by (simp add: join_pair_session_out)
qed (simp_all add: join_pair_session_document join_pair_session_out)

lemma document_init: "document init k = None"
  by (simp add: document_def init_def)

text \<open>
  C5 on the empty server: A creates the session s, B joins it, and C, joining
  after A's edit, is sent the edited code.
\<close>

theorem pair_session_join_returns_document_witness:
  "snd (join_pair_session ''A'' ''s'' init) =
     [({''A''}, Session_state (ps_code default_session) (ps_language default_session)),
      ({}, User_joined ''A'')] \<and>
   snd (join_pair_session ''B'' ''s'' (fst (join_pair_session ''A'' ''s'' init))) =
     [({''B''}, Session_state (ps_code default_session) (ps_language default_session)),
      ({''A''}, User_joined ''B'')] \<and>
   hd (snd (join_pair_session ''C'' ''s''
              (run_inputs (fst (code_change ''A'' ''s'' (Some ''x = 1'') None
                                  (fst (join_pair_session ''A'' ''s'' init))))
                 [Connect ''C'', Join_pair_session ''B'' ''s'']))) =
     ({''C''}, Session_state (Some ''x = 1'') (ps_language default_session))"
proof -
  let ?st = "fst (join_pair_session ''A'' ''s'' init)"
  let ?es = "[Connect ''C'', Join_pair_session ''B'' ''s'']"
  have d0: "document init ''s'' = None"
    by (rule document_init)
  have d1: "document ?st ''s'' = Some (ps_code default_session, ps_language default_session)"
    by (simp add: join_pair_session_document document_init)
  have es: "\<forall>e \<in> set ?es. \<not> edits_session ''s'' e"
    by simp
  have r0: "rooms init ''s'' - {''A''} = {}"
    by (simp add: init_def)
  have r1: "rooms ?st ''s'' - {''B''} = {''A''}"
    by (auto simp: join_pair_session_def socket_join_def has_def init_def Let_def
        split: option.splits)
  note t = pair_session_join_returns_document
  from t [of init "''s''" "''A''"] d0 r0 have a: "snd (join_pair_session ''A'' ''s'' init) =
     [({''A''}, Session_state (ps_code default_session) (ps_language default_session)),
      ({}, User_joined ''A'')]"
    by simp
  from t [of ?st "''s''" "''B''"] d1 r1 have b:
    "snd (join_pair_session ''B'' ''s'' ?st) =
     [({''B''}, Session_state (ps_code default_session) (ps_language default_session)),
      ({''A''}, User_joined ''B'')]"
    by simp
  note t3 = t [THEN conjunct2, THEN conjunct2, rule_format]
  have c:
    "hd (snd (join_pair_session ''C'' ''s''
              (run_inputs (fst (code_change ''A'' ''s'' (Some ''x = 1'') None ?st)) ?es))) =
     ({''C''}, Session_state (Some ''x = 1'') (ps_language default_session))"
    using t3 [where st = ?st and k = "''s''" and es = ?es and language = None,
        OF conjI [OF d1 es]]
    by (simp add: truthy_def)
  from a b c show ?thesis by simp
qed

subsection \<open>Leaving after a repeated join\<close>

lemma remove1_twice: "x \<in> set (remove1 x (xs @ [x, x]))"
  by (induction xs) auto

text \<open>
  C4 fails for a connection that joined the same pair session twice. Each join
  pushes the socket id onto \<open>session.users\<close>; the disconnect handler removes one
  occurrence only, so after it the id is still in the member list.
\<close>

theorem repeated_join_survives_disconnect:
  "\<exists>session.
     map_of (pairSessions (fst (disconnect sid
       (fst (join_pair_session sid k (fst (join_pair_session sid k st))))))) k = Some session \<and>
     sid \<in> set (ps_users session)"
  by (simp add: disconnect_fst leave_groups_frame leave_sessions_map_of
      join_pair_session_map_of remove1_twice)

text \<open>
  C4 at the failing input: A connects, joins the session s twice and
  disconnects; the session s still lists A.
\<close>

theorem repeated_join_survives_disconnect_witness:
  "map_of (pairSessions (run_inputs init
     [Connect ''A'', Join_pair_session ''A'' ''s'', Join_pair_session ''A'' ''s'',
      Disconnect ''A''])) ''s'' =
   Some (default_session\<lparr>ps_users := [''A'']\<rparr>)"
  using repeated_join_survives_disconnect [of "''A''" "''s''" "connect ''A'' init"]
  by (simp add: disconnect_fst leave_groups_frame leave_sessions_map_of
      join_pair_session_map_of group_handlers_pairSessions init_def default_session_def)

subsection \<open>The study-group Maps keep their shape\<close>

lemma update_values: "snd ` set (AList.update k v al) \<subseteq> insert v (snd ` set al)"
  by (induction al) auto

lemma distinct_values_update:
  "distinct (map snd al) \<Longrightarrow> v \<notin> snd ` set al \<Longrightarrow> distinct (map snd (AList.update k v al))"
proof (induction al)
  case Nil
  then show ?case by simp
next
  case (Cons p al)
  then show ?case
    using update_values [of k v al] by (cases p) (auto simp: image_iff)
qed

lemma distinct_values_delete:
  "distinct (map snd al) \<Longrightarrow> distinct (map snd (AList.delete k al))"
  by (simp add: AList.delete_eq distinct_map_filter)

lemma registry_invI:
  assumes "globalStudyGroups st = studyGroups st"
    and "distinct (map fst (studyGroups st))"
    and "distinct (map snd (studyGroups st))"
    and "\<And>gid r. (gid, r) \<in> set (studyGroups st) \<Longrightarrow> r < next_ref st \<and> heap st r \<noteq> None"
  shows "registry_inv st"
  using assms by (auto simp: registry_inv_def list_all_iff)

lemma registry_invD:
  assumes "registry_inv st"
  shows "globalStudyGroups st = studyGroups st"
    and "distinct (map fst (studyGroups st))"
    and "distinct (map snd (studyGroups st))"
    and "\<And>gid r. (gid, r) \<in> set (studyGroups st) \<Longrightarrow> r < next_ref st \<and> heap st r \<noteq> None"
  using assms by (auto simp: registry_inv_def list_all_iff)

lemma init_inv: "registry_inv init"
  by (simp add: registry_inv_def init_def)

lemma inv_fresh: "registry_inv st \<Longrightarrow> next_ref st \<notin> snd ` set (studyGroups st)"
  by (auto dest: registry_invD(4))

lemma set_update_cases:
  "(k', v') \<in> set (AList.update k v al) \<Longrightarrow> (k', v') = (k, v) \<or> (k', v') \<in> set al"
  by (induction al) (auto split: if_splits)

lemma set_delete_subset: "(k', v') \<in> set (AList.delete k al) \<Longrightarrow> (k', v') \<in> set al"
  by (simp add: AList.delete_eq)

lemma inv_alloc:
  assumes "registry_inv st"
  shows "registry_inv (st\<lparr>heap := (heap st)(next_ref st \<mapsto> g), next_ref := Suc (next_ref st),
           globalStudyGroups := AList.update gid (next_ref st) (globalStudyGroups st),
           studyGroups := AList.update gid (next_ref st) (studyGroups st)\<rparr>)"
proof (rule registry_invI)
  fix k r
  assume "(k, r) \<in> set (studyGroups (st\<lparr>heap := (heap st)(next_ref st \<mapsto> g), next_ref := Suc (next_ref st),
           globalStudyGroups := AList.update gid (next_ref st) (globalStudyGroups st),
           studyGroups := AList.update gid (next_ref st) (studyGroups st)\<rparr>))"
  then have "(k, r) \<in> set (AList.update gid (next_ref st) (studyGroups st))" by simp
  from set_update_cases [OF this] registry_invD(4) [OF assms, of k r]
  show "r < next_ref (st\<lparr>heap := (heap st)(next_ref st \<mapsto> g), next_ref := Suc (next_ref st),
           globalStudyGroups := AList.update gid (next_ref st) (globalStudyGroups st),
           studyGroups := AList.update gid (next_ref st) (studyGroups st)\<rparr>) \<and>
        heap (st\<lparr>heap := (heap st)(next_ref st \<mapsto> g), next_ref := Suc (next_ref st),
           globalStudyGroups := AList.update gid (next_ref st) (globalStudyGroups st),
           studyGroups := AList.update gid (next_ref st) (studyGroups st)\<rparr>) r \<noteq> None"
    by auto
qed (simp_all add: registry_invD [OF assms] distinct_update distinct_values_update
       inv_fresh [OF assms])

lemma inv_heap_update:
  assumes "registry_inv st" and "heap st r \<noteq> None"
  shows "registry_inv (st\<lparr>heap := (heap st)(r \<mapsto> g)\<rparr>)"
  using registry_invD [OF assms(1)] by (intro registry_invI) auto

lemma inv_delete:
  assumes "registry_inv st"
  shows "registry_inv (st\<lparr>globalStudyGroups := AList.delete gid (globalStudyGroups st),
           studyGroups := AList.delete gid (studyGroups st)\<rparr>)"
  using registry_invD [OF assms]
  by (intro registry_invI)
     (auto simp: distinct_delete distinct_values_delete dest: set_delete_subset)

lemma inv_other_fields:
  "registry_inv (st\<lparr>rooms := x\<rparr>) = registry_inv st"
  "registry_inv (st\<lparr>sockets := y\<rparr>) = registry_inv st"
  "registry_inv (st\<lparr>pairSessions := z\<rparr>) = registry_inv st"
  "registry_inv (st\<lparr>sharedCodes := v\<rparr>) = registry_inv st"
  "registry_inv (st\<lparr>videoCalls := w\<rparr>) = registry_inv st"
  by (simp_all add: registry_inv_def)

lemma leave_group_inv:
  assumes "registry_inv st"
  shows "registry_inv (fst (leave_group sid gid r st))"
  using registry_invD [OF assms]
  by (intro registry_invI)
     (auto simp: leave_group_def Let_def distinct_delete distinct_values_delete
           dest: set_delete_subset split: option.splits if_splits)

lemma leave_groups_inv:
  "registry_inv st \<Longrightarrow> registry_inv (fst (leave_groups sid L st))"
proof (induction L arbitrary: st)
  case Nil
  then show ?case by simp
next
  case (Cons a L)
  obtain gid r where a: "a = (gid, r)" by (cases a)
  show ?case
    unfolding a leave_groups_fst
    by (rule Cons.IH) (rule leave_group_inv [OF Cons.prems])
qed

lemma disconnect_inv: "registry_inv st \<Longrightarrow> registry_inv (fst (disconnect sid st))"
  unfolding disconnect_fst
  by (rule leave_groups_inv) (simp add: inv_other_fields)

lemma join_study_group_inv:
  assumes "registry_inv st"
  shows "registry_inv (fst (join_study_group sid gid date st))"
proof (cases "map_of (studyGroups st) gid")
  case None
  let ?g = "\<lparr>g_id = gid, g_name = ''Study Group '' @ gid, g_createdAt = date, g_users = [],
             g_code = Some welcome_group, g_language = Some ''javascript'', g_messages = [],
             g_questions = []\<rparr>"
  let ?g1 = "?g\<lparr>g_users := [\<lparr>m_id = sid, m_name = ''User'' @ show_nat (Suc 0)\<rparr>]\<rparr>"
  let ?st1 = "socket_join st sid gid"
  have i1: "registry_inv ?st1"
    using assms by (simp add: socket_join_def inv_other_fields)
  let ?st2 = "?st1\<lparr>heap := (heap ?st1)(next_ref ?st1 \<mapsto> ?g), next_ref := Suc (next_ref ?st1),
           globalStudyGroups := AList.update gid (next_ref ?st1) (globalStudyGroups ?st1),
           studyGroups := AList.update gid (next_ref ?st1) (studyGroups ?st1)\<rparr>"
  have i2: "registry_inv ?st2"
    by (rule inv_alloc [OF i1])
  have h2: "heap ?st2 (next_ref ?st1) \<noteq> None" by simp
  have i3: "registry_inv (?st2\<lparr>heap := (heap ?st2)(next_ref ?st1 \<mapsto> ?g1)\<rparr>)"
    by (rule inv_heap_update [OF i2 h2])
  have "fst (join_study_group sid gid date st) = ?st2\<lparr>heap := (heap ?st2)(next_ref ?st1 \<mapsto> ?g1)\<rparr>"
    using None registry_invD(1) [OF assms]
    by (simp add: join_study_group_def socket_join_def Let_def)
  with i3 show ?thesis by simp
next
  case (Some r)
  then have m: "(gid, r) \<in> set (studyGroups st)" by (rule map_of_SomeD)
  from registry_invD(4) [OF assms m] obtain g where g: "heap st r = Some g" by auto
  let ?g1 = "g\<lparr>g_users := g_users g @
                [\<lparr>m_id = sid, m_name = ''User'' @ show_nat (length (g_users g) + 1)\<rparr>]\<rparr>"
  let ?st1 = "socket_join st sid gid"
  have i1: "registry_inv ?st1"
    using assms by (simp add: socket_join_def inv_other_fields)
  have h1: "heap ?st1 r \<noteq> None" using g by (simp add: socket_join_def)
  have i3: "registry_inv (?st1\<lparr>heap := (heap ?st1)(r \<mapsto> ?g1)\<rparr>)"
    by (rule inv_heap_update [OF i1 h1])
  have "fst (join_study_group sid gid date st) = ?st1\<lparr>heap := (heap ?st1)(r \<mapsto> ?g1)\<rparr>"
    using Some g registry_invD(1) [OF assms]
    by (simp add: join_study_group_def socket_join_def has_def Let_def)
  with i3 show ?thesis by simp
qed

lemma group_edit_inv:
  assumes "registry_inv st"
  shows "registry_inv (fst (group_code_change sid gid c l st))"
    and "registry_inv (fst (send_message sid gid t n u d st))"
    and "registry_inv (fst (add_question sid gid t n u d st))"
  using assms
  by (auto simp: group_code_change_def send_message_def add_question_def Let_def
      intro!: inv_heap_update split: option.splits)

lemma api_groups_create_inv:
  "registry_inv st \<Longrightarrow> registry_inv (fst (api_groups_create name uuid date st))"
  by (simp add: api_groups_create_def Let_def inv_alloc)

lemma step_inv: "registry_inv st \<Longrightarrow> registry_inv (fst (step st e))"
  by (cases e)
     (simp_all add: disconnect_inv join_study_group_inv group_edit_inv api_groups_create_inv,
      simp_all add: connect_def socket_join_def join_pair_session_def code_change_def
        initiate_call_def end_call_def api_share_def inv_other_fields Let_def
        split: option.splits)

lemma reachable_inv: "reachable st \<Longrightarrow> registry_inv st"
  by (induction rule: reachable.induct) (simp_all add: init_inv step_inv)

subsection \<open>A group that loses its last member\<close>

lemma leave_group_heap_other:
  "r' \<noteq> r \<Longrightarrow> heap (fst (leave_group sid gid r st)) r' = heap st r'"
  by (simp add: leave_group_def Let_def split: option.splits)

lemma leave_groups_heap_other:
  "r' \<notin> snd ` set L \<Longrightarrow> heap (fst (leave_groups sid L st)) r' = heap st r'"
proof (induction L arbitrary: st)
  case Nil
  then show ?case by simp
next
  case (Cons a L)
  obtain gid r where a: "a = (gid, r)" by (cases a)
  from Cons.prems a have "r' \<noteq> r" "r' \<notin> snd ` set L" by auto
  then show ?case
    unfolding a leave_groups_fst
    by (simp add: Cons.IH leave_group_heap_other)
qed

lemma api_groups_ids: "fst ` set (api_groups st) \<subseteq> fst ` set (globalStudyGroups st)"
  by (auto simp: api_groups_def split: option.splits) force

lemma api_groups_entry:
  "(gid, r) \<in> set (globalStudyGroups st) \<Longrightarrow> heap st r = Some g \<Longrightarrow>
   (gid, g_name g, length (g_users g), g_createdAt g) \<in> set (api_groups st)"
  by (force simp: api_groups_def)

lemma show_nat_small: "show_nat 1 = ''1''" "show_nat (Suc 0) = ''1''"
  by (simp_all add: show_nat.simps digit_def)

lemma remove_first_no_match: "find P xs = None \<Longrightarrow> remove_first P xs = xs"
  by (induction xs) (auto split: if_splits)

lemma find_Some_ex: "(\<exists>x \<in> set xs. P x) \<longleftrightarrow> find P xs \<noteq> None"
  by (auto simp: find_None_iff)

lemma leave_group_at:
  assumes "heap st r = Some g"
  shows "heap (fst (leave_group sid gid r st)) r =
           Some (g\<lparr>g_users := remove_first (\<lambda>u. m_id u = sid) (g_users g)\<rparr>)"
    and "(\<exists>u \<in> set (g_users g). m_id u = sid) \<and>
         remove_first (\<lambda>u. m_id u = sid) (g_users g) = [] \<Longrightarrow>
         map_of (studyGroups (fst (leave_group sid gid r st))) gid = None \<and>
         map_of (globalStudyGroups (fst (leave_group sid gid r st))) gid = None"
    and "\<not> ((\<exists>u \<in> set (g_users g). m_id u = sid) \<and>
            remove_first (\<lambda>u. m_id u = sid) (g_users g) = []) \<Longrightarrow>
         studyGroups (fst (leave_group sid gid r st)) = studyGroups st \<and>
         globalStudyGroups (fst (leave_group sid gid r st)) = globalStudyGroups st"
  using assms
  by (auto simp: leave_group_def Let_def map_of_delete remove_first_no_match find_Some_ex
      split: option.splits)

lemma leave_group_keys_other:
  "gid0 \<noteq> gid \<Longrightarrow>
   map_of (studyGroups (fst (leave_group sid gid0 r0 st))) gid = map_of (studyGroups st) gid \<and>
   map_of (globalStudyGroups (fst (leave_group sid gid0 r0 st))) gid =
     map_of (globalStudyGroups st) gid"
  by (simp add: leave_group_def Let_def map_of_delete split: option.splits)

lemma leave_groups_keys_other:
  "gid \<notin> fst ` set L \<Longrightarrow>
   map_of (studyGroups (fst (leave_groups sid L st))) gid = map_of (studyGroups st) gid \<and>
   map_of (globalStudyGroups (fst (leave_groups sid L st))) gid =
     map_of (globalStudyGroups st) gid"
proof (induction L arbitrary: st)
  case Nil
  then show ?case by simp
next
  case (Cons a L)
  obtain gid0 r0 where a: "a = (gid0, r0)" by (cases a)
  from Cons.prems a have n: "gid0 \<noteq> gid" "gid \<notin> fst ` set L" by auto
  show ?case
    unfolding a leave_groups_fst
    using Cons.IH [OF n(2), of "fst (leave_group sid gid0 r0 st)"]
      leave_group_keys_other [OF n(1), of sid r0 st]
    by simp
qed

lemma leave_groups_at:
  assumes "distinct (map fst L)" and "distinct (map snd L)" and "(gid, r) \<in> set L"
    and "heap st r = Some g"
  shows "heap (fst (leave_groups sid L st)) r =
           Some (g\<lparr>g_users := remove_first (\<lambda>u. m_id u = sid) (g_users g)\<rparr>) \<and>
         (if (\<exists>u \<in> set (g_users g). m_id u = sid) \<and>
             remove_first (\<lambda>u. m_id u = sid) (g_users g) = []
          then map_of (studyGroups (fst (leave_groups sid L st))) gid = None \<and>
               map_of (globalStudyGroups (fst (leave_groups sid L st))) gid = None
          else map_of (studyGroups (fst (leave_groups sid L st))) gid =
                 map_of (studyGroups st) gid \<and>
               map_of (globalStudyGroups (fst (leave_groups sid L st))) gid =
                 map_of (globalStudyGroups st) gid)"
  using assms
proof (induction L arbitrary: st)
  case Nil
  then show ?case by simp
next
  case (Cons a L)
  obtain gid0 r0 where a: "a = (gid0, r0)" by (cases a)
  let ?st1 = "fst (leave_group sid gid0 r0 st)"
  from Cons.prems(1,2) a have d: "gid0 \<notin> fst ` set L" "r0 \<notin> snd ` set L"
    "distinct (map fst L)" "distinct (map snd L)" by auto
  show ?case
  proof (cases "(gid, r) = (gid0, r0)")
    case True
    then have e: "gid0 = gid" "r0 = r" by simp_all
    have h: "heap (fst (leave_groups sid L ?st1)) r = heap ?st1 r"
      using d(2) e by (simp add: leave_groups_heap_other)
    have k: "map_of (studyGroups (fst (leave_groups sid L ?st1))) gid =
               map_of (studyGroups ?st1) gid \<and>
             map_of (globalStudyGroups (fst (leave_groups sid L ?st1))) gid =
               map_of (globalStudyGroups ?st1) gid"
      using d(1) e by (simp add: leave_groups_keys_other)
    show ?thesis
      unfolding a leave_groups_fst
      using h k leave_group_at [OF Cons.prems(4), of sid gid] e
      by (auto split: if_splits)
  next
    case False
    with Cons.prems(3) a have m: "(gid, r) \<in> set L" by auto
    with d(1,2) have n: "gid0 \<noteq> gid" "r \<noteq> r0" by force+
    have h1: "heap ?st1 r = Some g"
      using Cons.prems(4) n(2) by (simp add: leave_group_heap_other)
    show ?thesis
      unfolding a leave_groups_fst
      using Cons.IH [OF d(3,4) m h1] leave_group_keys_other [OF n(1), of sid r0 st]
      by simp
  qed
qed

lemma disconnect_sockets: "sockets (fst (disconnect sid st)) = sockets st - {sid}"
  by (simp add: disconnect_fst leave_groups_frame)

text \<open>
  What a disconnect of the socket \<open>sid\<close> does to a group of the live registry,
  in every state with the shape above: the first entry of \<open>sid\<close> in the group's
  \<open>users\<close> list goes (none, when there is no such entry), and the group leaves
  both Maps and the listing exactly when that removal empties the list.
\<close>

lemma disconnect_group_effect:
  assumes "registry_inv st" and "map_of (studyGroups st) gid = Some r"
    and "heap st r = Some g"
  shows "heap (fst (disconnect sid st)) r =
           Some (g\<lparr>g_users := remove_first (\<lambda>u. m_id u = sid) (g_users g)\<rparr>) \<and>
         (if (\<exists>u \<in> set (g_users g). m_id u = sid) \<and>
             remove_first (\<lambda>u. m_id u = sid) (g_users g) = []
          then map_of (studyGroups (fst (disconnect sid st))) gid = None \<and>
               map_of (globalStudyGroups (fst (disconnect sid st))) gid = None \<and>
               gid \<notin> fst ` set (api_groups (fst (disconnect sid st)))
          else map_of (studyGroups (fst (disconnect sid st))) gid = Some r \<and>
               map_of (globalStudyGroups (fst (disconnect sid st))) gid = Some r)"
proof -
  let ?st0 = "st\<lparr>rooms := (\<lambda>room. rooms st room - {sid}), sockets := sockets st - {sid},
         pairSessions := fst (leave_sessions
           (st\<lparr>rooms := (\<lambda>room. rooms st room - {sid}), sockets := sockets st - {sid}\<rparr>)
           sid (pairSessions st))\<rparr>"
  have m: "(gid, r) \<in> set (studyGroups st)"
    using assms(2) by (rule map_of_SomeD)
  have h0: "heap ?st0 r = Some g" using assms(3) by simp
  note inv = registry_invD [OF assms(1)]
  have e: "fst (disconnect sid st) = fst (leave_groups sid (studyGroups st) ?st0)"
    by (rule disconnect_fst)
  from leave_groups_at [OF inv(2) inv(3) m h0, of sid] have
    "heap (fst (disconnect sid st)) r =
           Some (g\<lparr>g_users := remove_first (\<lambda>u. m_id u = sid) (g_users g)\<rparr>) \<and>
         (if (\<exists>u \<in> set (g_users g). m_id u = sid) \<and>
             remove_first (\<lambda>u. m_id u = sid) (g_users g) = []
          then map_of (studyGroups (fst (disconnect sid st))) gid = None \<and>
               map_of (globalStudyGroups (fst (disconnect sid st))) gid = None
          else map_of (studyGroups (fst (disconnect sid st))) gid = Some r \<and>
               map_of (globalStudyGroups (fst (disconnect sid st))) gid = Some r)"
    unfolding e using assms(2) inv(1) by simp
  moreover have "gid \<notin> fst ` set (api_groups (fst (disconnect sid st)))"
    if "map_of (globalStudyGroups (fst (disconnect sid st))) gid = None"
    using that api_groups_ids [of "fst (disconnect sid st)"]
    by (auto simp: map_of_eq_None_iff)
  ultimately show ?thesis by (auto split: if_splits)
qed

lemma show_nat_two: "show_nat 2 = ''2''" "show_nat (Suc (Suc 0)) = ''2''"
  by (simp_all add: show_nat.simps digit_def)

lemma join_study_group_new:
  assumes "registry_inv st" and "map_of (studyGroups st) gid = None"
  shows "map_of (studyGroups (fst (join_study_group sid gid date st))) gid = Some (next_ref st) \<and>
         heap (fst (join_study_group sid gid date st)) (next_ref st) =
           Some \<lparr>g_id = gid, g_name = ''Study Group '' @ gid, g_createdAt = date,
                 g_users = [\<lparr>m_id = sid, m_name = ''User1''\<rparr>],
                 g_code = Some welcome_group, g_language = Some ''javascript'',
                 g_messages = [], g_questions = []\<rparr>"
  using assms registry_invD(1) [OF assms(1)]
  by (simp add: join_study_group_def socket_join_def map_of_update show_nat_small Let_def)

lemma join_study_group_existing:
  assumes "registry_inv st" and "map_of (studyGroups st) gid = Some r"
    and "heap st r = Some g"
  shows "map_of (studyGroups (fst (join_study_group sid gid date st))) gid = Some r \<and>
         heap (fst (join_study_group sid gid date st)) r =
           Some (g\<lparr>g_users := g_users g @
                   [\<lparr>m_id = sid, m_name = ''User'' @ show_nat (length (g_users g) + 1)\<rparr>]\<rparr>)"
  using assms registry_invD(1) [OF assms(1)]
  by (simp add: join_study_group_def socket_join_def has_def Let_def)

text \<open>
  C3 fails when the last member of a group had joined it twice. In a reachable
  state with no group \<open>gid\<close>, let the socket \<open>sid\<close> join \<open>gid\<close> twice and then
  disconnect. Each join pushes an entry for \<open>sid\<close>; the disconnect removes one.
  Afterwards \<open>sid\<close> is not connected, it was the group's only member, and the
  group is still in the live registry and in the global directory, with one
  stale entry in its \<open>users\<close> list, and \<open>GET /api/groups\<close> lists it with one
  member.
\<close>

theorem repeated_group_join_survives_disconnect:
  assumes "reachable st" and "map_of (studyGroups st) gid = None"
    and "s3 = run_inputs st
           [Join_study_group sid gid d1, Join_study_group sid gid d2, Disconnect sid]"
  shows "sid \<notin> sockets s3 \<and>
         map_of (studyGroups s3) gid = Some (next_ref st) \<and>
         map_of (globalStudyGroups s3) gid = Some (next_ref st) \<and>
         heap s3 (next_ref st) =
           Some \<lparr>g_id = gid, g_name = ''Study Group '' @ gid, g_createdAt = d1,
                 g_users = [\<lparr>m_id = sid, m_name = ''User2''\<rparr>],
                 g_code = Some welcome_group, g_language = Some ''javascript'',
                 g_messages = [], g_questions = []\<rparr> \<and>
         (gid, ''Study Group '' @ gid, 1, d1) \<in> set (api_groups s3)"
proof -
  let ?r = "next_ref st"
  let ?s1 = "fst (join_study_group sid gid d1 st)"
  let ?s2 = "fst (join_study_group sid gid d2 ?s1)"
  let ?g1 = "\<lparr>g_id = gid, g_name = ''Study Group '' @ gid, g_createdAt = d1,
                 g_users = [\<lparr>m_id = sid, m_name = ''User1''\<rparr>],
                 g_code = Some welcome_group, g_language = Some ''javascript'',
                 g_messages = [], g_questions = []\<rparr>"
  let ?g2 = "?g1\<lparr>g_users := [\<lparr>m_id = sid, m_name = ''User1''\<rparr>, \<lparr>m_id = sid, m_name = ''User2''\<rparr>]\<rparr>"
  have s3: "s3 = fst (disconnect sid ?s2)"
    using assms(3) by simp
  have i0: "registry_inv st" using assms(1) by (rule reachable_inv)
  have i1: "registry_inv ?s1" using i0 by (rule join_study_group_inv)
  have i2: "registry_inv ?s2" using i1 by (rule join_study_group_inv)
  note j1 = join_study_group_new [OF i0 assms(2), of sid d1]
  from join_study_group_existing [OF i1 j1 [THEN conjunct1] j1 [THEN conjunct2], of sid d2]
  have j2: "map_of (studyGroups ?s2) gid = Some ?r" "heap ?s2 ?r = Some ?g2"
    by (simp_all add: show_nat_two)
  have rf: "remove_first (\<lambda>u. m_id u = sid) (g_users ?g2) = [\<lparr>m_id = sid, m_name = ''User2''\<rparr>]"
    by simp
  from disconnect_group_effect [OF i2 j2, of sid] rf
  have e: "heap s3 ?r = Some (?g2\<lparr>g_users := [\<lparr>m_id = sid, m_name = ''User2''\<rparr>]\<rparr>)"
    "map_of (studyGroups s3) gid = Some ?r" "map_of (globalStudyGroups s3) gid = Some ?r"
    unfolding s3 by simp_all
  have "(gid, ?r) \<in> set (globalStudyGroups s3)"
    using e(3) by (rule map_of_SomeD)
  from api_groups_entry [OF this e(1)]
  have l: "(gid, ''Study Group '' @ gid, 1, d1) \<in> set (api_groups s3)" by simp
  have "sid \<notin> sockets s3"
    unfolding s3 by (simp add: disconnect_sockets)
  with e l show ?thesis by simp
qed

text \<open>
  C3 at the failing input, on the empty server: A connects, joins g twice and
  disconnects; g is still in both Maps and still listed with one member.
\<close>

theorem repeated_group_join_survives_disconnect_witness:
  "''A'' \<notin> sockets (run_inputs init
     [Connect ''A'', Join_study_group ''A'' ''g'' 5, Join_study_group ''A'' ''g'' 6,
      Disconnect ''A'']) \<and>
   map_of (studyGroups (run_inputs init
     [Connect ''A'', Join_study_group ''A'' ''g'' 5, Join_study_group ''A'' ''g'' 6,
      Disconnect ''A''])) ''g'' = Some 0 \<and>
   map_of (globalStudyGroups (run_inputs init
     [Connect ''A'', Join_study_group ''A'' ''g'' 5, Join_study_group ''A'' ''g'' 6,
      Disconnect ''A''])) ''g'' = Some 0 \<and>
   (''g'', ''Study Group g'', 1, 5) \<in> set (api_groups (run_inputs init
     [Connect ''A'', Join_study_group ''A'' ''g'' 5, Join_study_group ''A'' ''g'' 6,
      Disconnect ''A'']))"
proof -
  let ?st = "fst (step init (Connect ''A''))"
  have r: "reachable ?st"
    by (intro reachable_step reachable_init)
  have n: "map_of (studyGroups ?st) ''g'' = None"
    by (simp add: connect_def socket_join_def init_def)
  have z: "next_ref ?st = 0"
    by (simp add: connect_def socket_join_def init_def)
  have e: "run_inputs init
     [Connect ''A'', Join_study_group ''A'' ''g'' 5, Join_study_group ''A'' ''g'' 6,
      Disconnect ''A''] =
     run_inputs ?st
     [Join_study_group ''A'' ''g'' 5, Join_study_group ''A'' ''g'' 6, Disconnect ''A'']"
    by simp
  from repeated_group_join_survives_disconnect [OF r n refl, of "''A''" 5 6]
  show ?thesis
    unfolding e z by simp
qed

text \<open>
  What does hold. A member with one entry who is the only one listed leaves:
  the group goes from both Maps and from the listing. And in every reachable
  state a group of the live registry is in the global directory, as the same
  object, and listed.
\<close>

lemma sole_member_leaves:
  assumes "reachable st" and "map_of (studyGroups st) gid = Some r"
    and "heap st r = Some g" and "g_users g = [u]" and "m_id u = sid"
  shows "map_of (studyGroups (fst (step st (Disconnect sid)))) gid = None \<and>
         map_of (globalStudyGroups (fst (step st (Disconnect sid)))) gid = None \<and>
         gid \<notin> fst ` set (api_groups (fst (step st (Disconnect sid))))"
  using disconnect_group_effect [OF reachable_inv [OF assms(1)] assms(2,3), of sid] assms(4,5)
  by simp

lemma live_groups_are_in_global_directory:
  assumes "reachable st" and "map_of (studyGroups st) gid = Some r"
  shows "map_of (globalStudyGroups st) gid = Some r \<and>
         (\<exists>g. heap st r = Some g \<and>
              (gid, g_name g, length (g_users g), g_createdAt g) \<in> set (api_groups st))"
proof -
  have inv: "registry_inv st" using assms(1) by (rule reachable_inv)
  have s: "(gid, r) \<in> set (studyGroups st)" using assms(2) by (rule map_of_SomeD)
  from registry_invD(4) [OF inv s] obtain g where g: "heap st r = Some g" by auto
  from s have "(gid, r) \<in> set (globalStudyGroups st)"
    by (simp add: registry_invD(1) [OF inv])
  from api_groups_entry [OF this g] g assms(2) show ?thesis
    by (simp add: registry_invD(1) [OF inv])
qed


subsection \<open>Who receives what\<close>

lemma join_rooms:
  "rooms (fst (join_study_group sid gid date st)) = (rooms st)(gid := insert sid (rooms st gid))"
  "rooms (fst (join_pair_session sid k st)) = (rooms st)(k := insert sid (rooms st k))"
  "rooms (connect sid st) = (rooms st)(sid := insert sid (rooms st sid))"
  by (simp_all add: join_study_group_def join_pair_session_def connect_def socket_join_def
      Let_def split: option.splits prod.splits)

text \<open>
  C6. In every reachable state, a send-message or add-question for a group in
  the live registry emits one event, delivered to every socket in the group's
  room, the sender included when it is in the room; a group-code-change for
  such a group, and a code-change for an existing pair session, emits one
  update event, delivered to every socket in the room except the sender.
\<close>

theorem chat_reaches_all_edits_skip_sender:
  assumes "reachable st"
  shows "(\<forall>r. map_of (studyGroups st) gid = Some r \<longrightarrow>
            snd (step st (Send_message sid gid text username uuid date)) =
              [(rooms st gid,
                New_message \<lparr>msg_id = uuid, msg_text = text,
                  msg_username = or_default username ''Anonymous'', msg_timestamp = date\<rparr>)] \<and>
            snd (step st (Add_question sid gid text username uuid date)) =
              [(rooms st gid,
                New_question \<lparr>msg_id = uuid, msg_text = text,
                  msg_username = or_default username ''Anonymous'', msg_timestamp = date\<rparr>)] \<and>
            snd (step st (Group_code_change sid gid code language)) =
              [(rooms st gid - {sid}, Group_code_update code language)]) \<and>
         (\<forall>s. map_of (pairSessions st) k = Some s \<longrightarrow>
            snd (step st (Code_change sid k code language)) =
              [(rooms st k - {sid}, Code_update code language)])"
proof (intro conjI allI impI)
  fix r
  assume m: "map_of (studyGroups st) gid = Some r"
  then have "(gid, r) \<in> set (studyGroups st)" by (rule map_of_SomeD)
  from registry_invD(4) [OF reachable_inv [OF assms] this]
  obtain g where g: "heap st r = Some g" by auto
  show "snd (step st (Send_message sid gid text username uuid date)) =
          [(rooms st gid,
            New_message \<lparr>msg_id = uuid, msg_text = text,
              msg_username = or_default username ''Anonymous'', msg_timestamp = date\<rparr>)]"
    using m g by (simp add: send_message_def has_def io_to_def Let_def)
  show "snd (step st (Add_question sid gid text username uuid date)) =
          [(rooms st gid,
            New_question \<lparr>msg_id = uuid, msg_text = text,
              msg_username = or_default username ''Anonymous'', msg_timestamp = date\<rparr>)]"
    using m g by (simp add: add_question_def has_def io_to_def Let_def)
  show "snd (step st (Group_code_change sid gid code language)) =
          [(rooms st gid - {sid}, Group_code_update code language)]"
    using m g by (simp add: group_code_change_def has_def socket_to_def Let_def)
next
  fix s
  assume "map_of (pairSessions st) k = Some s"
  then show "snd (step st (Code_change sid k code language)) =
          [(rooms st k - {sid}, Code_update code language)]"
    by (simp add: code_change_def has_def socket_to_def Let_def)
qed

text \<open>
  C6 with A and B in the group g and in the pair session s: A's message goes
  to A and B, A's edits go to B alone.
\<close>

theorem chat_reaches_all_edits_skip_sender_witness:
  "snd (step (run_inputs init
          [Connect ''A'', Connect ''B'', Join_study_group ''A'' ''g'' 5,
           Join_study_group ''B'' ''g'' 6, Join_pair_session ''A'' ''s'',
           Join_pair_session ''B'' ''s''])
        (Send_message ''A'' ''g'' (Some ''hello'') None ''m1'' 7)) =
     [({''A'', ''B''},
       New_message \<lparr>msg_id = ''m1'', msg_text = Some ''hello'', msg_username = ''Anonymous'',
         msg_timestamp = 7\<rparr>)] \<and>
   snd (step (run_inputs init
          [Connect ''A'', Connect ''B'', Join_study_group ''A'' ''g'' 5,
           Join_study_group ''B'' ''g'' 6, Join_pair_session ''A'' ''s'',
           Join_pair_session ''B'' ''s''])
        (Group_code_change ''A'' ''g'' (Some ''x = 1'') None)) =
     [({''B''}, Group_code_update (Some ''x = 1'') None)] \<and>
   snd (step (run_inputs init
          [Connect ''A'', Connect ''B'', Join_study_group ''A'' ''g'' 5,
           Join_study_group ''B'' ''g'' 6, Join_pair_session ''A'' ''s'',
           Join_pair_session ''B'' ''s''])
        (Code_change ''A'' ''s'' (Some ''y = 2'') None)) =
     [({''B''}, Code_update (Some ''y = 2'') None)]"
proof -
  let ?es = "[Connect ''A'', Connect ''B'', Join_study_group ''A'' ''g'' 5,
           Join_study_group ''B'' ''g'' 6, Join_pair_session ''A'' ''s'',
           Join_pair_session ''B'' ''s'']"
  let ?s1 = "fst (step init (Connect ''A''))"
  let ?s2 = "fst (step ?s1 (Connect ''B''))"
  let ?s3 = "fst (step ?s2 (Join_study_group ''A'' ''g'' 5))"
  let ?s4 = "fst (step ?s3 (Join_study_group ''B'' ''g'' 6))"
  let ?s5 = "fst (step ?s4 (Join_pair_session ''A'' ''s''))"
  let ?st = "fst (step ?s5 (Join_pair_session ''B'' ''s''))"
  have e: "run_inputs init ?es = ?st" by simp
  have r: "reachable ?st"
    by (intro reachable_step reachable_init)
  have rg: "rooms ?st ''g'' = {''A'', ''B''}" and rs: "rooms ?st ''s'' = {''A'', ''B''}"
    by (auto simp: join_rooms init_def)
  have sg: "map_of (studyGroups ?st) ''g'' \<noteq> None"
    by (simp add: join_pair_session_def join_study_group_def connect_def socket_join_def
        init_def has_def Let_def)
  then obtain r0 where sg': "map_of (studyGroups ?st) ''g'' = Some r0" by blast
  have ps: "map_of (pairSessions ?st) ''s'' \<noteq> None"
    by (simp add: join_pair_session_map_of)
  then obtain s0 where ps': "map_of (pairSessions ?st) ''s'' = Some s0" by blast
  note t = chat_reaches_all_edits_skip_sender [OF r]
  note t1 = t [THEN conjunct1, rule_format, OF sg']
  note t2 = t [THEN conjunct2, rule_format, OF ps']
  have "{''A'', ''B''} - {''A''} = {''B''}" by auto
  with t1 [of "''A''" "Some ''hello''" None "''m1''" 7 "Some ''x = 1''" None]
    t2 [of "''A''" "Some ''y = 2''" None] rg rs
  show ?thesis
    unfolding e by (simp add: or_default_def del: step.simps)
qed


section \<open>What the clean-up paths do achieve\<close>

text \<open>
  A disconnect of a socket that no pair session and no study group lists
  changes no registry and emits nothing; it only takes the socket out of the
  rooms and of the connected sockets.
\<close>

lemma leave_sessions_nonmember:
  "\<forall>(k, s) \<in> set L. sid \<notin> set (ps_users s) \<Longrightarrow> leave_sessions st sid L = (L, [])"
  by (induction L) auto

lemma find_Some_member: "find P xs = Some x \<Longrightarrow> P x \<and> x \<in> set xs"
  by (induction xs) (auto split: if_splits)

lemma leave_group_nonmember:
  "(\<And>g. heap st r = Some g \<Longrightarrow> sid \<notin> m_id ` set (g_users g)) \<Longrightarrow>
   leave_group sid gid r st = (st, [])"
  by (auto simp: leave_group_def split: option.splits dest!: find_Some_member)

lemma leave_groups_nonmember:
  "\<forall>(gid, r) \<in> set L. \<forall>g. heap st r = Some g \<longrightarrow> sid \<notin> m_id ` set (g_users g) \<Longrightarrow>
   leave_groups sid L st = (st, [])"
  by (induction L) (auto simp: leave_group_nonmember)

lemma disconnect_nonmember_noop:
  assumes "\<forall>(k, s) \<in> set (pairSessions st). sid \<notin> set (ps_users s)"
    and "\<forall>(gid, r) \<in> set (studyGroups st). \<forall>g. heap st r = Some g \<longrightarrow>
           sid \<notin> m_id ` set (g_users g)"
  shows "disconnect sid st =
           (st\<lparr>rooms := (\<lambda>room. rooms st room - {sid}), sockets := sockets st - {sid}\<rparr>, [])"
  using assms
  by (simp add: disconnect_def Let_def leave_sessions_nonmember leave_groups_nonmember)

text \<open>
  On the path through the exec callback the source file does go away: for a
  supported language, if the file is still there when the process ends and its
  removal is not refused, it does not exist after the request, whatever happens
  to the removal of the artifacts.
\<close>

lemma unlinkSync_removes:
  "unlinkSync fs p = Inr fs1 \<Longrightarrow> files fs1 = (files fs)(p := None)"
  by (auto simp: unlinkSync_def split: if_splits)

lemma cleanup_removes_source_file:
  assumes "files fs (filePath tf) \<noteq> None" and "filePath tf \<notin> locked fs"
  shows "files (fst (cleanup h fs tf language)) (filePath tf) = None"
proof -
  obtain fs1 where u: "unlinkSync fs (filePath tf) = Inr fs1"
    using assms by (auto simp: unlinkSync_def)
  have f1: "files fs1 (filePath tf) = None"
    using unlinkSync_removes [OF u] by simp
  let ?A = "if language = ''cpp'' then
              (let outputPath = path_join h (path_dirname h (filePath tf)) ''output''
               in if existsSync fs1 outputPath then unlinkSync fs1 outputPath else Inr fs1)
            else Inr fs1"
  have c: "cleanup h fs tf language =
             (case ?A of
                Inl e \<Rightarrow> (fs1, Some e)
              | Inr fs2 \<Rightarrow>
                  (case (if language = ''java'' then
                           (let classPath = path_join h (path_dirname h (filePath tf))
                                              (render (className tf) @ ''.class'')
                            in if existsSync fs2 classPath then unlinkSync fs2 classPath
                               else Inr fs2)
                         else Inr fs2) of
                     Inl e \<Rightarrow> (fs2, Some e)
                   | Inr fs3 \<Rightarrow> (fs3, None)))"
    by (simp add: cleanup_def u)
  show ?thesis
  proof (cases ?A)
    case (Inl e)
    then show ?thesis using f1 by (simp add: c)
  next
    case (Inr fs2)
    then have f2: "files fs2 (filePath tf) = None"
      using f1 by (auto simp: Let_def dest: unlinkSync_removes split: if_splits)
    let ?B = "if language = ''java'' then
                (let classPath = path_join h (path_dirname h (filePath tf))
                                   (render (className tf) @ ''.class'')
                 in if existsSync fs2 classPath then unlinkSync fs2 classPath else Inr fs2)
              else Inr fs2"
    show ?thesis
    proof (cases ?B)
      case (Inl e)
      then show ?thesis using f2 Inr by (simp add: c)
    next
      case (Inr fs3)
      then have "files fs3 (filePath tf) = None"
        using f2 by (auto simp: Let_def dest: unlinkSync_removes split: if_splits)
      then show ?thesis using Inr \<open>?A = Inr fs2\<close> by (simp add: c)
    qed
  qed
qed

lemma run_removes_source_file:
  assumes "code \<noteq> []"
    and "createTempFile h fs code language = (fs1, tf)"
    and "commands h tf language = Own command"
    and "exec command fs1 = (p, fs2)"
    and "files fs2 (filePath tf) \<noteq> None" and "filePath tf \<notin> locked fs2"
  shows "files (fst (api_run h exec fs (Some code) (Some language))) (filePath tf) = None"
proof -
  have l: "language \<noteq> []"
    using assms(3) by (auto simp: commands_def split: if_splits)
  show ?thesis
    using assms(1-4) l cleanup_removes_source_file [OF assms(5,6), of h language]
    by (simp add: api_run_def truthy_def render_def case_prod_beta)
qed

end
